theory Spec2Isabelle
  imports Main "HOL-Library.Signed_Division"
begin

section \<open>What the package takes from outside its two source files\<close>

text \<open>
  \<^verbatim>\<open>buffer.go\<close> and \<open>log.go\<close> use names that neither file declares, and library calls
  whose answers the program does not decide. They are the fields of one record, and
  every function of the model that depends on one of them takes the record.

  \<^item> \<open>val\<close>: line 26 of \<open>buffer.go\<close> reads \<^verbatim>\<open>reminder := val / 10\<close>. The parameters of
    \<open>AppendInt\<close> are \<open>remaining\<close> and \<open>width\<close>, its locals \<open>repr\<close>, \<open>reprCount\<close> and
    \<open>reminder\<close>; \<open>val\<close> is none of them, so in Go it can only be a package-level name,
    of a value that one call of \<open>AppendInt\<close> does not change.
  \<^item> \<open>growslice\<close>: the capacity Go's built-in \<open>append\<close> picks when it reallocates, from
    the old capacity and the length needed. Go promises no more than "sufficiently
    large", which the model enforces with \<open>max\<close>.
  \<^item> \<open>colorOff\<close> ... \<open>colorGray\<close>: the escape sequences of the colour helpers
    (\<open>ColorBuffer\<close>, \<open>Red\<close>, \<open>Orange\<close>, ...), which \<open>log.go\<close> calls and does not define.
  \<^item> \<open>libfile\<close>: the path of \<open>log.go\<close> as the Go runtime reports it in a stack frame.
  \<^item> \<open>clock\<close>: the answer of the n-th call of \<open>time.Now()\<close>.
  \<^item> \<open>write_err\<close>: whether \<open>Write\<close> on a destination returns an error for given bytes.
  \<^item> \<open>open_file\<close>: the answer of \<open>os.OpenFile\<close> for a path, an error text or a file.
  \<^item> \<open>caller_below\<close>: the answer of \<open>runtime.Caller\<close> for a negative skip count.
\<close>

type_synonym writer = nat

record gotime =
  year :: int
  month :: int
  day :: int
  hour :: int
  minute :: int
  second :: int

record frame =
  fr_file :: string
  fr_fn :: string
  fr_line :: int

record env =
  val :: int
  growslice :: "nat \<Rightarrow> nat \<Rightarrow> nat"
  colorOff :: string
  colorRed :: string
  colorGreen :: string
  colorOrange :: string
  colorBlue :: string
  colorPurple :: string
  colorCyan :: string
  colorGray :: string
  libfile :: string
  clock :: "nat \<Rightarrow> gotime"
  write_err :: "writer \<Rightarrow> string \<Rightarrow> string option"
  open_file :: "string \<Rightarrow> string + writer"
  caller_below :: "int \<Rightarrow> frame option"

section \<open>buffer.go\<close>

text \<open>
  \<^verbatim>\<open>type Buffer []byte\<close>: a slice is a window of length \<open>len\<close> at the start of a backing
  array; the length of \<open>arr\<close> is the slice's capacity. A byte is a \<^typ>\<open>char\<close>, a byte
  slice and a Go string are both a \<^typ>\<open>string\<close>. The bytes of \<open>arr\<close> from \<open>len\<close> on are
  what earlier appends left there.
\<close>

record Buffer =
  arr :: string
  len :: nat

definition nil_Buffer :: Buffer where
  "nil_Buffer = \<lparr>arr = [], len = 0\<rparr>"

text \<open>\<^verbatim>\<open>*b = Buffer([]byte(*b)[:0])\<close>: same backing array, length 0.\<close>

definition Reset :: "Buffer \<Rightarrow> Buffer" where
  "Reset b = b\<lparr>len := 0\<rparr>"

text \<open>
  \<^verbatim>\<open>*b = append(*b, data...)\<close>: in place when the capacity suffices, into a fresh
  array (zero-filled beyond the data) otherwise.
\<close>

definition Append :: "env \<Rightarrow> Buffer \<Rightarrow> string \<Rightarrow> Buffer" where
  "Append e b data =
     (let n = len b + length data in
      if n \<le> length (arr b)
      then \<lparr>arr = take (len b) (arr b) @ data @ drop n (arr b), len = n\<rparr>
      else \<lparr>arr = take (len b) (arr b) @ data
                    @ replicate (max n (growslice e (length (arr b)) n) - n) (CHR 0x00),
            len = n\<rparr>)"

definition AppendByte :: "env \<Rightarrow> Buffer \<Rightarrow> char \<Rightarrow> Buffer" where
  "AppendByte e b data = Append e b [data]"

definition Bytes :: "Buffer \<Rightarrow> string" where
  "Bytes b = take (len b) (arr b)"

datatype panic = IndexOutOfRange

text \<open>
  The conversion \<^verbatim>\<open>byte(x)\<close> of an \<open>int\<close> keeps the low eight bits, which is what
  \<^const>\<open>char_of\<close> does on \<^typ>\<open>int\<close>. Go's \<open>int\<close> has 64 bits; the sum under the conversion
  may wrap, which does not change its low eight bits, and no other operation of the
  loop leaves the 64-bit range before the array index does. Go's \<open>/\<close> truncates
  towards zero: \<open>sdiv\<close>.
\<close>

definition byte :: "int \<Rightarrow> char" where
  "byte x = char_of x"

text \<open>
  The loop of \<open>AppendInt\<close> (lines 25 to 31), on the state \<open>repr\<close>, \<open>reprCount\<close>,
  \<open>remaining\<close>, \<open>width\<close>. An index outside the array is Go's run-time panic.
\<close>

function AppendInt_loop ::
  "env \<Rightarrow> string \<Rightarrow> int \<Rightarrow> int \<Rightarrow> int \<Rightarrow> panic + (string \<times> int \<times> int)" where
  "AppendInt_loop e repr reprCount remaining width =
     (if remaining \<ge> 10 \<or> width > 1 then
        (let reminder = val e sdiv 10 in
         if 0 \<le> reprCount \<and> reprCount < int (length repr)
         then AppendInt_loop e (repr[nat reprCount := byte (48 + remaining - reminder * 10)])
                (reprCount - 1) reminder (width - 1)
         else Inl IndexOutOfRange)
      else Inr (repr, reprCount, remaining))"
  by pat_completeness auto
termination
  by (relation "measure (\<lambda>(e, repr, reprCount, remaining, width). nat (reprCount + 1))") auto

declare AppendInt_loop.simps [simp del]

text \<open>
  \<open>AppendInt\<close> (lines 22 to 34). \<open>AppendInt_repr\<close> is lines 23 to 32 and the slice
  \<^verbatim>\<open>repr[reprCount:]\<close>: the scratch array of eight zero bytes, the loop, the last digit.
  \<open>AppendInt\<close> appends that slice.
\<close>

definition AppendInt_repr :: "env \<Rightarrow> int \<Rightarrow> int \<Rightarrow> panic + string" where
  "AppendInt_repr e remaining width =
     (case AppendInt_loop e (replicate 8 (CHR 0x00)) 7 remaining width of
        Inl p \<Rightarrow> Inl p
      | Inr (repr, reprCount, remaining') \<Rightarrow>
          if 0 \<le> reprCount \<and> reprCount < int (length repr)
          then Inr (drop (nat reprCount) (repr[nat reprCount := byte (48 + remaining')]))
          else Inl IndexOutOfRange)"

definition AppendInt :: "env \<Rightarrow> Buffer \<Rightarrow> int \<Rightarrow> int \<Rightarrow> panic + Buffer" where
  "AppendInt e b remaining width =
     (case AppendInt_repr e remaining width of
        Inl p \<Rightarrow> Inl p
      | Inr digits \<Rightarrow> Inr (Append e b digits))"

text \<open>A sequence of \<open>Append\<close> and \<open>AppendByte\<close> calls on one buffer.\<close>

datatype bufop = OpAppend string | OpAppendByte char

fun apply_op :: "env \<Rightarrow> Buffer \<Rightarrow> bufop \<Rightarrow> Buffer" where
  "apply_op e b (OpAppend data) = Append e b data"
| "apply_op e b (OpAppendByte c) = AppendByte e b c"

fun apply_ops :: "env \<Rightarrow> Buffer \<Rightarrow> bufop list \<Rightarrow> Buffer" where
  "apply_ops e b [] = b"
| "apply_ops e b (x # xs) = apply_ops e (apply_op e b x) xs"

fun op_bytes :: "bufop \<Rightarrow> string" where
  "op_bytes (OpAppend data) = data"
| "op_bytes (OpAppendByte c) = [c]"

text \<open>The decimal string in the words of the spec's section 4.1, "the non-negative
  decimal representation of value, left-padded with '0' to at least minWidth digits":
  what \<open>AppendInt\<close> is compared with, not part of the program.\<close>

fun decimal :: "nat \<Rightarrow> string" where
  "decimal n = (if n < 10 then [char_of (48 + n)]
                else decimal (n div 10) @ [char_of (48 + n mod 10)])"

declare decimal.simps [simp del]

definition padded_decimal :: "nat \<Rightarrow> nat \<Rightarrow> string" where
  "padded_decimal n w = replicate (w - length (decimal n)) (CHR ''0'') @ decimal n"

section \<open>The colour helpers\<close>

text \<open>Modelled from the spec: the type \<open>ColorBuffer\<close> with its methods \<open>Off\<close>, \<open>Blue\<close>,
  \<open>Orange\<close>, \<open>Gray\<close> and the functions \<open>Red\<close>, \<open>Orange\<close>, \<open>Green\<close>, \<open>Purple\<close>, \<open>Cyan\<close> are
  used by \<open>log.go\<close> and declared in neither source file. Section 6: the colour variant
  "wraps prefix, timestamp, and caller-location segments in ANSI escape sequences
  (distinct colors per severity ...) and a reset sequence after each colored segment".
  A \<open>ColorBuffer\<close> embeds a \<open>Buffer\<close> (line 299 reads \<^verbatim>\<open>l.buf.Buffer\<close>) and is modelled as
  one; a method appends its escape sequence, a function wraps its argument.\<close>

definition buf_Off :: "env \<Rightarrow> Buffer \<Rightarrow> Buffer" where
  "buf_Off e b = Append e b (colorOff e)"

definition buf_Blue :: "env \<Rightarrow> Buffer \<Rightarrow> Buffer" where
  "buf_Blue e b = Append e b (colorBlue e)"

definition buf_Orange :: "env \<Rightarrow> Buffer \<Rightarrow> Buffer" where
  "buf_Orange e b = Append e b (colorOrange e)"

definition buf_Gray :: "env \<Rightarrow> Buffer \<Rightarrow> Buffer" where
  "buf_Gray e b = Append e b (colorGray e)"

definition Red :: "env \<Rightarrow> string \<Rightarrow> string" where
  "Red e data = colorRed e @ data @ colorOff e"

definition Orange :: "env \<Rightarrow> string \<Rightarrow> string" where
  "Orange e data = colorOrange e @ data @ colorOff e"

definition Green :: "env \<Rightarrow> string \<Rightarrow> string" where
  "Green e data = colorGreen e @ data @ colorOff e"

definition Purple :: "env \<Rightarrow> string \<Rightarrow> string" where
  "Purple e data = colorPurple e @ data @ colorOff e"

definition Cyan :: "env \<Rightarrow> string \<Rightarrow> string" where
  "Cyan e data = colorCyan e @ data @ colorOff e"

text \<open>The environment with every escape sequence erased.\<close>

definition no_colors :: "env \<Rightarrow> env" where
  "no_colors e = e\<lparr>colorOff := [], colorRed := [], colorGreen := [], colorOrange := [],
                   colorBlue := [], colorPurple := [], colorCyan := [], colorGray := []\<rparr>"

section \<open>log.go: data\<close>

text \<open>The struct \<open>Logger\<close> without its lock \<open>mu\<close>: the model runs one call at a time.
  \<open>out\<close> and \<open>logFile\<close> name destinations; \<open>logFile\<close> is \<open>None\<close> for Go's \<open>nil\<close>.\<close>

record Logger =
  depth :: int
  color :: bool
  out :: writer
  debug :: bool
  timestamp :: bool
  quiet :: bool
  logFile :: "writer option"
  buf :: Buffer

record Prefix =
  Plain :: string
  Color :: string
  File :: bool
  Callstack :: bool

definition plainFatal :: string where "plainFatal = ''[FATAL] ''"
definition plainError :: string where "plainError = ''[ERROR] ''"
definition plainWarn :: string where "plainWarn = ''[WARN]  ''"
definition plainInfo :: string where "plainInfo = ''[INFO]  ''"
definition plainDebug :: string where "plainDebug = ''[DEBUG] ''"
definition plainTrace :: string where "plainTrace = ''[TRACE] ''"

definition FatalPrefix :: "env \<Rightarrow> Prefix" where
  "FatalPrefix e = \<lparr>Plain = plainFatal, Color = Red e plainFatal, File = True, Callstack = False\<rparr>"

definition ErrorPrefix :: "env \<Rightarrow> Prefix" where
  "ErrorPrefix e = \<lparr>Plain = plainError, Color = Red e plainError, File = True, Callstack = False\<rparr>"

definition WarnPrefix :: "env \<Rightarrow> Prefix" where
  "WarnPrefix e = \<lparr>Plain = plainWarn, Color = Orange e plainWarn, File = False, Callstack = False\<rparr>"

definition InfoPrefix :: "env \<Rightarrow> Prefix" where
  "InfoPrefix e = \<lparr>Plain = plainInfo, Color = Green e plainInfo, File = False, Callstack = False\<rparr>"

definition DebugPrefix :: "env \<Rightarrow> Prefix" where
  "DebugPrefix e = \<lparr>Plain = plainDebug, Color = Purple e plainDebug, File = True, Callstack = False\<rparr>"

definition TracePrefix :: "env \<Rightarrow> Prefix" where
  "TracePrefix e = \<lparr>Plain = plainTrace, Color = Cyan e plainTrace, File = False, Callstack = True\<rparr>"

text \<open>The six prefixes of lines 50 to 78 as one table.\<close>

datatype severity = FATAL | ERROR | WARN | INFO | DEBUG | TRACE

fun prefix_of :: "env \<Rightarrow> severity \<Rightarrow> Prefix" where
  "prefix_of e FATAL = FatalPrefix e"
| "prefix_of e ERROR = ErrorPrefix e"
| "prefix_of e WARN = WarnPrefix e"
| "prefix_of e INFO = InfoPrefix e"
| "prefix_of e DEBUG = DebugPrefix e"
| "prefix_of e TRACE = TracePrefix e"

text \<open>What a run has done so far: how often the clock was read, and every \<open>Write\<close> call
  in order, with its destination and its bytes.\<close>

record world =
  ticks :: nat
  writes :: "(writer \<times> string) list"

definition time_Now :: "env \<Rightarrow> world \<Rightarrow> gotime \<times> world" where
  "time_Now e w = (clock e (ticks w), w\<lparr>ticks := Suc (ticks w)\<rparr>)"

definition Write :: "env \<Rightarrow> world \<Rightarrow> writer \<Rightarrow> string \<Rightarrow> string option \<times> world" where
  "Write e w dst bs = (write_err e dst bs, w\<lparr>writes := writes w @ [(dst, bs)]\<rparr>)"

text \<open>
  The call stack is a list of frames, innermost first. A function of the model takes
  the frames of its callers; where it calls another function of the package at line
  \<open>n\<close>, it puts its own frame at line \<open>n\<close> in front. \<open>runtime.Caller(skip)\<close> answers with
  the frame \<open>skip\<close> levels above its caller, and with \<open>ok = false\<close> beyond the outermost.
\<close>

definition lib_frame :: "env \<Rightarrow> string \<Rightarrow> int \<Rightarrow> frame" where
  "lib_frame e name n =
     \<lparr>fr_file = libfile e, fr_fn = ''colored_logging.(*Logger).'' @ name, fr_line = n\<rparr>"

definition runtime_Caller :: "env \<Rightarrow> frame list \<Rightarrow> int \<Rightarrow> frame option" where
  "runtime_Caller e stk skip =
     (if skip < 0 then caller_below e skip
      else if nat skip < length stk then Some (stk ! nat skip) else None)"

text \<open>\<open>filepath.Base\<close> on a system whose separator is the slash.\<close>

definition Base :: "string \<Rightarrow> string" where
  "Base path =
     (if path = [] then ''.''
      else let p = rev (dropWhile (\<lambda>c. c = CHR ''/'') (rev path));
               q = rev (takeWhile (\<lambda>c. c \<noteq> CHR ''/'') (rev p))
           in if q = [] then ''/'' else q)"

text \<open>\<open>fmt.Sprintln\<close> on operands that print as the given strings: a space between
  operands, a newline at the end.\<close>

fun join_sp :: "string list \<Rightarrow> string" where
  "join_sp [] = []"
| "join_sp [v] = v"
| "join_sp (v # vs) = v @ '' '' @ join_sp vs"

definition Sprintln :: "string list \<Rightarrow> string" where
  "Sprintln v = join_sp v @ [CHR 0x0A]"

section \<open>log.go: configuration\<close>

text \<open>\<open>term.IsTerminal\<close> is the caller's answer \<open>is_terminal\<close>.\<close>

definition New :: "writer \<Rightarrow> bool \<Rightarrow> Logger" where
  "New out' is_terminal =
     \<lparr>depth = 0, color = is_terminal, out = out', debug = False, timestamp = True,
      quiet = False, logFile = None, buf = nil_Buffer\<rparr>"

definition WithColor :: "Logger \<Rightarrow> Logger" where "WithColor l = l\<lparr>color := True\<rparr>"
definition Depth :: "Logger \<Rightarrow> int \<Rightarrow> Logger" where "Depth l d = l\<lparr>depth := d\<rparr>"
definition IsColored :: "Logger \<Rightarrow> bool" where "IsColored l = color l"
definition WithoutColor :: "Logger \<Rightarrow> Logger" where "WithoutColor l = l\<lparr>color := False\<rparr>"
definition WithDebug :: "Logger \<Rightarrow> Logger" where "WithDebug l = l\<lparr>debug := True\<rparr>"
definition WithoutDebug :: "Logger \<Rightarrow> Logger" where "WithoutDebug l = l\<lparr>debug := False\<rparr>"
definition IsDebug :: "Logger \<Rightarrow> bool" where "IsDebug l = debug l"
definition WithTimestamp :: "Logger \<Rightarrow> Logger" where "WithTimestamp l = l\<lparr>timestamp := True\<rparr>"
definition WithoutTimestamp :: "Logger \<Rightarrow> Logger" where "WithoutTimestamp l = l\<lparr>timestamp := False\<rparr>"
definition Quiet :: "Logger \<Rightarrow> Logger" where "Quiet l = l\<lparr>quiet := True\<rparr>"
definition IsQuiet :: "Logger \<Rightarrow> bool" where "IsQuiet l = quiet l"

section \<open>log.go: emission\<close>

text \<open>A panic ends the call that raised it and every caller up to the user's code.\<close>

definition pbind :: "panic + 'a \<Rightarrow> ('a \<Rightarrow> panic + 'b) \<Rightarrow> panic + 'b" where
  "pbind m f = (case m of Inl p \<Rightarrow> Inl p | Inr x \<Rightarrow> f x)"

text \<open>\<open>getOccurrence\<close> (lines 303 to 316); \<open>stk\<close> holds the frames of its callers. The
  result is \<open>(file, fn, line, ok)\<close>.\<close>

definition getOccurrence ::
  "env \<Rightarrow> Logger \<Rightarrow> frame list \<Rightarrow> int \<Rightarrow> string \<times> string \<times> int \<times> bool" where
  "getOccurrence e l stk additionalDepth =
     (case runtime_Caller e (lib_frame e ''getOccurrence'' 307 # stk)
             (depth l + 2 + additionalDepth) of
        None \<Rightarrow> (''<unknown file>'', ''<unknown function>'', 0, False)
      | Some f \<Rightarrow> (Base (fr_file f), fr_fn f, fr_line f, True))"

text \<open>The body of \<open>output\<close> between \<open>Reset\<close> and the flush, in the order of the source.
  Lines 219 to 223, the prefix:\<close>

definition append_prefix :: "env \<Rightarrow> Logger \<Rightarrow> Prefix \<Rightarrow> Buffer \<Rightarrow> Buffer" where
  "append_prefix e l prefix b =
     (if color l then Append e b (Color prefix) else Append e b (Plain prefix))"

text \<open>Lines 224 to 246, the timestamp:\<close>

definition append_timestamp :: "env \<Rightarrow> Logger \<Rightarrow> gotime \<Rightarrow> Buffer \<Rightarrow> panic + Buffer" where
  "append_timestamp e l now b =
     (if timestamp l then
        pbind (AppendInt e (if color l then buf_Blue e b else b) (year now) 4) (\<lambda>b.
        pbind (AppendInt e (AppendByte e b (CHR ''/'')) (month now) 2) (\<lambda>b.
        pbind (AppendInt e (AppendByte e b (CHR ''/'')) (day now) 2) (\<lambda>b.
        pbind (AppendInt e (AppendByte e b (CHR '' '')) (hour now) 2) (\<lambda>b.
        pbind (AppendInt e (AppendByte e b (CHR '':'')) (minute now) 2) (\<lambda>b.
        pbind (AppendInt e (AppendByte e b (CHR '':'')) (second now) 2) (\<lambda>b.
        let b = AppendByte e b (CHR '' '') in
        Inr (if color l then buf_Off e b else b)))))))
      else Inr b)"

text \<open>Lines 248 to 264, the caller's function, file and line; \<open>stk\<close> holds the frames
  of the callers of \<open>output\<close>.\<close>

definition append_location ::
  "env \<Rightarrow> Logger \<Rightarrow> frame list \<Rightarrow> Prefix \<Rightarrow> Buffer \<Rightarrow> panic + Buffer" where
  "append_location e l stk prefix b =
     (if File prefix then
        (case getOccurrence e l (lib_frame e ''output'' 249 # stk) 0 of
           (file, fn, line, ok) \<Rightarrow>
             let b = (if color l then buf_Orange e b else b);
                 b = Append e b fn;
                 b = AppendByte e b (CHR '':'');
                 b = Append e b file;
                 b = AppendByte e b (CHR '':'')
             in pbind (AppendInt e b line 0) (\<lambda>b.
                let b = AppendByte e b (CHR '' '') in
                Inr (if color l then buf_Off e b else b)))
      else Inr b)"

text \<open>Lines 266 to 269, the message and its newline:\<close>

definition append_message :: "env \<Rightarrow> string \<Rightarrow> Buffer \<Rightarrow> Buffer" where
  "append_message e data b =
     (let b = Append e b data in
      if length data = 0 \<or> last data \<noteq> CHR 0x0A then AppendByte e b (CHR 0x0A) else b)"

text \<open>Lines 274 to 296, \<^verbatim>\<open>for i := range maxCallDepth\<close>: the first argument counts the
  iterations that are left, the second is \<open>i\<close>.\<close>

fun callstack_loop ::
  "env \<Rightarrow> Logger \<Rightarrow> frame list \<Rightarrow> nat \<Rightarrow> nat \<Rightarrow> Buffer \<Rightarrow> panic + Buffer" where
  "callstack_loop e l stk 0 i b = Inr b"
| "callstack_loop e l stk (Suc n) i b =
     (case getOccurrence e l (lib_frame e ''output'' 277 # stk) (int i) of
        (file, fn, line, ok) \<Rightarrow>
          if \<not> ok then Inr b
          else
            let b = (if color l then buf_Gray e b else b);
                b = AppendByte e b (CHR 0x09);
                b = Append e b fn;
                b = AppendByte e b (CHR '':'');
                b = Append e b file;
                b = AppendByte e b (CHR '':'')
            in pbind (AppendInt e b line 0) (\<lambda>b.
               let b = AppendByte e b (CHR 0x0A);
                   b = (if color l then buf_Off e b else b)
               in callstack_loop e l stk n (Suc i) b))"

definition maxCallDepth :: nat where
  "maxCallDepth = 50"

text \<open>Lines 271 to 297:\<close>

definition append_callstack ::
  "env \<Rightarrow> Logger \<Rightarrow> frame list \<Rightarrow> Prefix \<Rightarrow> Buffer \<Rightarrow> panic + Buffer" where
  "append_callstack e l stk prefix b =
     (if Callstack prefix then callstack_loop e l stk maxCallDepth 0 b else Inr b)"

text \<open>Lines 217 to 297 as a whole: what \<open>output\<close> puts into the logger's buffer for the
  clock reading \<open>now\<close>.\<close>

definition format_record ::
  "env \<Rightarrow> Logger \<Rightarrow> gotime \<Rightarrow> frame list \<Rightarrow> Prefix \<Rightarrow> string \<Rightarrow> panic + Buffer" where
  "format_record e l now stk prefix data =
     pbind (append_timestamp e l now (append_prefix e l prefix (Reset (buf l)))) (\<lambda>b.
     pbind (append_location e l stk prefix b) (\<lambda>b.
     append_callstack e l stk prefix (append_message e data b)))"

text \<open>\<open>output\<close> (lines 208 to 301). The result is the error of \<open>Write\<close> (\<open>None\<close> for
  \<open>nil\<close>), the logger with its buffer as the call leaves it, and the world.\<close>

definition "output" ::
  "env \<Rightarrow> Logger \<Rightarrow> world \<Rightarrow> frame list \<Rightarrow> Prefix \<Rightarrow> string
    \<Rightarrow> panic + (string option \<times> Logger \<times> world)" where
  "output e l w stk prefix data =
     (if IsQuiet l then Inr (None, l, w)
      else
        (case time_Now e w of
           (now, w) \<Rightarrow>
             pbind (format_record e l now stk prefix data) (\<lambda>b.
               (case Write e w (out l) (Bytes b) of
                  (err, w) \<Rightarrow> Inr (err, l\<lparr>buf := b\<rparr>, w)))))"

text \<open>\<open>Output\<close> (lines 194 to 206). The copy of the logger shares the backing array of
  \<open>buf\<close> with the original; the original's slice is not touched by the copy's pass, and
  its own pass starts with \<open>Reset\<close>, so the sharing does not show in any byte written.\<close>

definition Output ::
  "env \<Rightarrow> Logger \<Rightarrow> world \<Rightarrow> frame list \<Rightarrow> Prefix \<Rightarrow> string
    \<Rightarrow> panic + (string option \<times> Logger \<times> world)" where
  "Output e l w stk prefix data =
     (case logFile l of
        Some f \<Rightarrow>
          (let loggerCopy = l\<lparr>color := False, out := f\<rparr> in
           pbind (output e loggerCopy w (lib_frame e ''Output'' 201 # stk) prefix data)
             (\<lambda>(err, lc, w).
                case err of
                  Some x \<Rightarrow> Inr (Some x, l, w)
                | None \<Rightarrow> output e l w (lib_frame e ''Output'' 205 # stk) prefix data))
      | None \<Rightarrow> output e l w (lib_frame e ''Output'' 205 # stk) prefix data)"

text \<open>The severity methods (lines 318 to 385) drop the error of \<open>Output\<close>. \<open>emit\<close> is
  their common shape: the method \<open>name\<close> calls \<open>Output\<close> at line \<open>n\<close>.\<close>

definition emit ::
  "env \<Rightarrow> Logger \<Rightarrow> world \<Rightarrow> frame list \<Rightarrow> string \<Rightarrow> int \<Rightarrow> Prefix \<Rightarrow> string
    \<Rightarrow> panic + (Logger \<times> world)" where
  "emit e l w stk name n prefix data =
     pbind (Output e l w (lib_frame e name n # stk) prefix data)
       (\<lambda>(err, l, w). Inr (l, w))"



definition Error ::
  "env \<Rightarrow> Logger \<Rightarrow> world \<Rightarrow> frame list \<Rightarrow> string list \<Rightarrow> panic + (Logger \<times> world)" where
  "Error e l w stk v = emit e l w stk ''Error'' 333 (ErrorPrefix e) (Sprintln v)"




definition Info ::
  "env \<Rightarrow> Logger \<Rightarrow> world \<Rightarrow> frame list \<Rightarrow> string list \<Rightarrow> panic + (Logger \<times> world)" where
  "Info e l w stk v = emit e l w stk ''Info'' 353 (InfoPrefix e) (Sprintln v)"

definition Infof ::
  "env \<Rightarrow> Logger \<Rightarrow> world \<Rightarrow> frame list \<Rightarrow> string \<Rightarrow> panic + (Logger \<times> world)" where
  "Infof e l w stk formatted = emit e l w stk ''Infof'' 358 (InfoPrefix e) formatted"

definition Debug ::
  "env \<Rightarrow> Logger \<Rightarrow> world \<Rightarrow> frame list \<Rightarrow> string list \<Rightarrow> panic + (Logger \<times> world)" where
  "Debug e l w stk v =
     (if IsDebug l then emit e l w stk ''Debug'' 364 (DebugPrefix e) (Sprintln v)
      else Inr (l, w))"

definition Debugf ::
  "env \<Rightarrow> Logger \<Rightarrow> world \<Rightarrow> frame list \<Rightarrow> string \<Rightarrow> panic + (Logger \<times> world)" where
  "Debugf e l w stk formatted =
     (if IsDebug l then emit e l w stk ''Debugf'' 371 (DebugPrefix e) formatted
      else Inr (l, w))"

definition Trace ::
  "env \<Rightarrow> Logger \<Rightarrow> world \<Rightarrow> frame list \<Rightarrow> string list \<Rightarrow> panic + (Logger \<times> world)" where
  "Trace e l w stk v =
     (if IsDebug l then emit e l w stk ''Trace'' 378 (TracePrefix e) (Sprintln v)
      else Inr (l, w))"

definition Tracef ::
  "env \<Rightarrow> Logger \<Rightarrow> world \<Rightarrow> frame list \<Rightarrow> string \<Rightarrow> panic + (Logger \<times> world)" where
  "Tracef e l w stk formatted = Trace e l w (lib_frame e ''Tracef'' 384 # stk) [formatted]"

text \<open>\<open>WithLogFile\<close> (lines 121 to 135). The finalizer of line 127 runs when the garbage
  collector decides, if ever, and is not part of the call.\<close>

definition WithLogFile ::
  "env \<Rightarrow> Logger \<Rightarrow> world \<Rightarrow> frame list \<Rightarrow> string \<Rightarrow> panic + (Logger \<times> world)" where
  "WithLogFile e l w stk path =
     (case open_file e path of
        Inl err \<Rightarrow>
          Error e l w (lib_frame e ''WithLogFile'' 124 # stk)
            [''could not open log file'', path, err]
      | Inr f \<Rightarrow> Inr (l\<lparr>logFile := Some f\<rparr>, w))"

section \<open>The bytes of a record\<close>

text \<open>The functions of this section are not in the source. They say, on strings and
  without a buffer, which bytes the statements below expect; the lemmas that follow
  prove that the code above produces exactly them.\<close>

definition wf_buf :: "Buffer \<Rightarrow> bool" where
  "wf_buf b = (len b \<le> length (arr b))"

definition holds :: "Buffer \<Rightarrow> string \<Rightarrow> bool" where
  "holds b s = (wf_buf b \<and> Bytes b = s)"

definition on_color :: "Logger \<Rightarrow> string \<Rightarrow> string" where
  "on_color l esc = (if color l then esc else [])"

definition prefix_bytes :: "Logger \<Rightarrow> Prefix \<Rightarrow> string" where
  "prefix_bytes l prefix = (if color l then Color prefix else Plain prefix)"

definition timestamp_bytes :: "env \<Rightarrow> Logger \<Rightarrow> gotime \<Rightarrow> panic + string" where
  "timestamp_bytes e l now =
     (if timestamp l then
        pbind (AppendInt_repr e (year now) 4) (\<lambda>y.
        pbind (AppendInt_repr e (month now) 2) (\<lambda>mo.
        pbind (AppendInt_repr e (day now) 2) (\<lambda>d.
        pbind (AppendInt_repr e (hour now) 2) (\<lambda>h.
        pbind (AppendInt_repr e (minute now) 2) (\<lambda>mi.
        pbind (AppendInt_repr e (second now) 2) (\<lambda>s.
        Inr (on_color l (colorBlue e) @ y @ ''/'' @ mo @ ''/'' @ d @ '' '' @ h @ '':'' @ mi
             @ '':'' @ s @ '' '' @ on_color l (colorOff e))))))))
      else Inr [])"

definition location_bytes :: "env \<Rightarrow> Logger \<Rightarrow> frame list \<Rightarrow> Prefix \<Rightarrow> panic + string" where
  "location_bytes e l stk prefix =
     (if File prefix then
        (case getOccurrence e l (lib_frame e ''output'' 249 # stk) 0 of
           (file, fn, line, ok) \<Rightarrow>
             pbind (AppendInt_repr e line 0) (\<lambda>n.
             Inr (on_color l (colorOrange e) @ fn @ '':'' @ file @ '':'' @ n @ '' ''
                  @ on_color l (colorOff e))))
      else Inr [])"

definition message_bytes :: "string \<Rightarrow> string" where
  "message_bytes data = data @ (if data = [] \<or> last data \<noteq> CHR 0x0A then [CHR 0x0A] else [])"

text \<open>The frames of a stack dump: the answers of \<open>getOccurrence\<close> for \<open>i\<close>, \<open>i + 1\<close>, ...,
  at most \<open>n\<close> of them, up to the first that is not available.\<close>

definition callstack_frames ::
  "env \<Rightarrow> Logger \<Rightarrow> frame list \<Rightarrow> nat \<Rightarrow> nat \<Rightarrow> (string \<times> string \<times> int \<times> bool) list" where
  "callstack_frames e l stk n i =
     takeWhile (\<lambda>(file, fn, line, ok). ok)
       (map (\<lambda>k. getOccurrence e l (lib_frame e ''output'' 277 # stk) (int k)) [i..<i + n])"

definition frame_line :: "env \<Rightarrow> Logger \<Rightarrow> string \<times> string \<times> int \<times> bool \<Rightarrow> panic + string" where
  "frame_line e l occ =
     (case occ of (file, fn, line, ok) \<Rightarrow>
        pbind (AppendInt_repr e line 0) (\<lambda>n.
        Inr (on_color l (colorGray e) @ [CHR 0x09] @ fn @ '':'' @ file @ '':'' @ n @ [CHR 0x0A]
             @ on_color l (colorOff e))))"

fun pconcat :: "(panic + string) list \<Rightarrow> panic + string" where
  "pconcat [] = Inr []"
| "pconcat (m # ms) = pbind m (\<lambda>x. pbind (pconcat ms) (\<lambda>xs. Inr (x @ xs)))"

definition callstack_bytes :: "env \<Rightarrow> Logger \<Rightarrow> frame list \<Rightarrow> Prefix \<Rightarrow> panic + string" where
  "callstack_bytes e l stk prefix =
     (if Callstack prefix
      then pconcat (map (frame_line e l) (callstack_frames e l stk maxCallDepth 0))
      else Inr [])"

definition record_bytes ::
  "env \<Rightarrow> Logger \<Rightarrow> gotime \<Rightarrow> frame list \<Rightarrow> Prefix \<Rightarrow> string \<Rightarrow> panic + string" where
  "record_bytes e l now stk prefix data =
     pbind (timestamp_bytes e l now) (\<lambda>t.
     pbind (location_bytes e l stk prefix) (\<lambda>c.
     pbind (callstack_bytes e l stk prefix) (\<lambda>k.
     Inr (prefix_bytes l prefix @ t @ c @ message_bytes data @ k))))"

section \<open>A concrete run\<close>

text \<open>An environment, a world and a user's call stack to evaluate the program on. The
  clock advances by one second per reading; no write fails; no file opens.\<close>

definition env0 :: env where
  "env0 = \<lparr>val = 0, growslice = (\<lambda>c n. 2 * c),
           colorOff = [CHR 0x1B, CHR ''['', CHR ''0'', CHR ''m''],
           colorRed = [CHR 0x1B, CHR ''['', CHR ''3'', CHR ''1'', CHR ''m''],
           colorGreen = [CHR 0x1B, CHR ''['', CHR ''3'', CHR ''2'', CHR ''m''],
           colorOrange = [CHR 0x1B, CHR ''['', CHR ''3'', CHR ''3'', CHR ''m''],
           colorBlue = [CHR 0x1B, CHR ''['', CHR ''3'', CHR ''4'', CHR ''m''],
           colorPurple = [CHR 0x1B, CHR ''['', CHR ''3'', CHR ''5'', CHR ''m''],
           colorCyan = [CHR 0x1B, CHR ''['', CHR ''3'', CHR ''6'', CHR ''m''],
           colorGray = [CHR 0x1B, CHR ''['', CHR ''3'', CHR ''7'', CHR ''m''],
           libfile = ''/go/src/colored_logging/log.go'',
           clock = (\<lambda>n. \<lparr>year = 2024, month = 5, day = 6, hour = 7, minute = 8, second = int n\<rparr>),
           write_err = (\<lambda>dst bs. None),
           open_file = (\<lambda>path. Inl ''no such file or directory''),
           caller_below = (\<lambda>skip. None)\<rparr>"

definition world0 :: world where
  "world0 = \<lparr>ticks = 0, writes = []\<rparr>"

definition stack0 :: "frame list" where
  "stack0 = [\<lparr>fr_file = ''/app/main.go'', fr_fn = ''main.run'', fr_line = 7\<rparr>,
             \<lparr>fr_file = ''/app/main.go'', fr_fn = ''main.main'', fr_line = 3\<rparr>]"

text \<open>The same environment with a disk that is full: every write to destination 2 fails.\<close>

definition env_full :: env where
  "env_full = env0\<lparr>write_err := (\<lambda>dst bs. if dst = 2 then Some ''no space left on device'' else None)\<rparr>"

text \<open>The same environment with 100 for \<open>val\<close>.\<close>

definition env_val100 :: env where
  "env_val100 = env0\<lparr>val := 100\<rparr>"

text \<open>Loggers on destination 1: as \<open>New\<close> makes one for a terminal; the same with a log
  file on destination 2; one without timestamp; one without colour and timestamp.\<close>

definition logger_new :: Logger where
  "logger_new = New 1 True"

definition logger_file :: Logger where
  "logger_file = (New 1 True)\<lparr>logFile := Some 2\<rparr>"

definition logger_file_plain :: Logger where
  "logger_file_plain = (WithoutTimestamp (New 1 False))\<lparr>logFile := Some 2\<rparr>"

definition logger_plain :: Logger where
  "logger_plain = WithoutColor (WithoutTimestamp (New 1 True))"

section \<open>The buffer holds the bytes of the record\<close>

lemma wf_buf_Reset: "wf_buf (Reset b)"
  by (simp add: wf_buf_def Reset_def)

lemma Bytes_Reset: "Bytes (Reset b) = []"
  by (simp add: Bytes_def Reset_def)

lemma wf_buf_Append: "wf_buf b \<Longrightarrow> wf_buf (Append e b d)"
  by (simp add: wf_buf_def Append_def Let_def)

lemma Bytes_Append: "wf_buf b \<Longrightarrow> Bytes (Append e b d) = Bytes b @ d"
  by (simp add: wf_buf_def Append_def Bytes_def Let_def)

lemma holds_Reset: "holds (Reset b) []"
  by (simp add: holds_def wf_buf_Reset Bytes_Reset)

lemma holds_Append: "holds b s \<Longrightarrow> holds (Append e b d) (s @ d)"
  by (simp add: holds_def wf_buf_Append Bytes_Append)

lemma holds_AppendByte: "holds b s \<Longrightarrow> holds (AppendByte e b c) (s @ [c])"
  by (simp add: AppendByte_def holds_Append)

lemma holds_on_color:
  "holds b s \<Longrightarrow> holds (if color l then Append e b esc else b) (s @ on_color l esc)"
  by (simp add: on_color_def holds_Append)

lemma holds_AppendInt:
  "holds b s \<Longrightarrow>
   rel_sum (=) holds (AppendInt e b v w) (pbind (AppendInt_repr e v w) (\<lambda>ds. Inr (s @ ds)))"
  by (simp add: AppendInt_def pbind_def holds_Append split: sum.splits)

lemma rel_pbind:
  "rel_sum (=) holds m m' \<Longrightarrow> (\<And>b s. holds b s \<Longrightarrow> rel_sum (=) holds (f b) (f' s))
   \<Longrightarrow> rel_sum (=) holds (pbind m f) (pbind m' f')"
  by (cases m; cases m') (simp_all add: pbind_def)

lemma pbind_assoc: "pbind (pbind m f) g = pbind m (\<lambda>x. pbind (f x) g)"
  by (cases m) (simp_all add: pbind_def)

lemma pbind_Inr: "pbind (Inr x) f = f x"
  by (simp add: pbind_def)

lemma pbind_Inl: "pbind (Inl p) f = Inl p"
  by (simp add: pbind_def)

lemma holds_AppendInt_then:
  assumes "holds b s" and "\<And>b' ds. holds b' (s @ ds) \<Longrightarrow> rel_sum (=) holds (f b') (g ds)"
  shows "rel_sum (=) holds (pbind (AppendInt e b v w) f) (pbind (AppendInt_repr e v w) g)"
proof (cases "AppendInt_repr e v w")
  case (Inl p)
  then show ?thesis by (simp add: AppendInt_def pbind_def)
next
  case (Inr ds)
  then show ?thesis
    using assms(2) [of "Append e b ds" ds] holds_Append [OF assms(1), of e ds]
    by (simp add: AppendInt_def pbind_def)
qed

lemma holds_append_prefix: "holds b s \<Longrightarrow> holds (append_prefix e l p b) (s @ prefix_bytes l p)"
  by (simp add: append_prefix_def prefix_bytes_def holds_Append)

lemma holds_append_message: "holds b s \<Longrightarrow> holds (append_message e d b) (s @ message_bytes d)"
  using holds_Append [of b s e d] holds_AppendByte [of "Append e b d" "s @ d" e "CHR 0x0A"]
  by (simp add: append_message_def message_bytes_def Let_def)

lemma holds_close:
  "holds b s' \<Longrightarrow> s' @ [c] @ on_color l (colorOff e) = t \<Longrightarrow>
   rel_sum (=) holds (Inr (if color l then buf_Off e (AppendByte e b c) else AppendByte e b c)) (Inr t)"
proof -
  assume h: "holds b s'" and t: "s' @ [c] @ on_color l (colorOff e) = t"
  have "holds (AppendByte e b c) (s' @ [c])"
    using h by (rule holds_AppendByte)
  then have "holds (if color l then Append e (AppendByte e b c) (colorOff e) else AppendByte e b c)
               ((s' @ [c]) @ on_color l (colorOff e))"
    by (rule holds_on_color)
  then show ?thesis
    using t by (auto simp: Let_def buf_Off_def)
qed

lemma holds_append_timestamp:
  assumes "holds b s"
  shows "rel_sum (=) holds (append_timestamp e l now b)
           (pbind (timestamp_bytes e l now) (\<lambda>t. Inr (s @ t)))"
proof (cases "timestamp l")
  case False
  then show ?thesis using assms by (simp add: append_timestamp_def timestamp_bytes_def pbind_def)
next
  case True
  have 0: "holds (if color l then buf_Blue e b else b) (s @ on_color l (colorBlue e))"
    unfolding buf_Blue_def using assms by (rule holds_on_color)
  show ?thesis
    unfolding append_timestamp_def timestamp_bytes_def if_P [OF True] pbind_assoc pbind_Inr Let_def
    apply (rule holds_AppendInt_then [OF 0])
    apply (rule holds_AppendInt_then [OF holds_AppendByte], assumption)
    apply (rule holds_AppendInt_then [OF holds_AppendByte], assumption)
    apply (rule holds_AppendInt_then [OF holds_AppendByte], assumption)
    apply (rule holds_AppendInt_then [OF holds_AppendByte], assumption)
    apply (rule holds_AppendInt_then [OF holds_AppendByte], assumption)
    apply (rule holds_close, assumption)
    apply simp
    done
qed

lemma holds_append_location:
  assumes "holds b s"
  shows "rel_sum (=) holds (append_location e l stk p b)
           (pbind (location_bytes e l stk p) (\<lambda>t. Inr (s @ t)))"
proof (cases "File p")
  case False
  then show ?thesis using assms by (simp add: append_location_def location_bytes_def pbind_def)
next
  case True
  obtain fl fn line ok where occ:
    "getOccurrence e l (lib_frame e ''output'' 249 # stk) 0 = (fl, fn, line, ok)"
    by (cases "getOccurrence e l (lib_frame e ''output'' 249 # stk) 0") auto
  have 0: "holds (AppendByte e (Append e (AppendByte e (Append e
             (if color l then buf_Orange e b else b) fn) (CHR '':'')) fl) (CHR '':''))
             (((((s @ on_color l (colorOrange e)) @ fn) @ '':'') @ fl) @ '':'')"
    unfolding buf_Orange_def
    by (rule holds_AppendByte, rule holds_Append, rule holds_AppendByte, rule holds_Append,
        rule holds_on_color, rule assms)
  show ?thesis
    unfolding append_location_def location_bytes_def if_P [OF True] occ prod.case Let_def
      pbind_assoc pbind_Inr
    apply (rule holds_AppendInt_then) 
     apply (rule 0)
    apply (rule holds_close, assumption)
    apply simp
    done
qed


lemma callstack_frames_0: "callstack_frames e l stk 0 i = []"
  by (simp add: callstack_frames_def)

lemma callstack_frames_Suc:
  "callstack_frames e l stk (Suc n) i =
     (case getOccurrence e l (lib_frame e ''output'' 277 # stk) (int i) of
        (fl, fn, line, ok) \<Rightarrow>
          if ok then (fl, fn, line, ok) # callstack_frames e l stk n (Suc i) else [])"
proof -
  have "[i..<i + Suc n] = i # [Suc i..<Suc i + n]"
    by (simp add: upt_conv_Cons)
  then show ?thesis
    by (simp add: callstack_frames_def split: prod.splits)
qed

lemma holds_callstack_loop:
  "holds b s \<Longrightarrow>
   rel_sum (=) holds (callstack_loop e l stk n i b)
     (pbind (pconcat (map (frame_line e l) (callstack_frames e l stk n i))) (\<lambda>k. Inr (s @ k)))"
proof (induction n arbitrary: i b s)
  case 0
  then show ?case by (simp add: callstack_frames_0 pbind_Inr)
next
  case (Suc n)
  obtain fl fn line ok where occ:
    "getOccurrence e l (lib_frame e ''output'' 277 # stk) (int i) = (fl, fn, line, ok)"
    by (cases "getOccurrence e l (lib_frame e ''output'' 277 # stk) (int i)") auto
  show ?case
  proof (cases ok)
    case False
    then show ?thesis
      using Suc.prems occ by (simp add: callstack_frames_Suc pbind_Inr)
  next
    case True
    define B where "B = AppendByte e (Append e (AppendByte e (Append e (AppendByte e
             (if color l then buf_Gray e b else b) (CHR 0x09)) fn) (CHR '':'')) fl) (CHR '':'')"
    define S where "S = (((((s @ on_color l (colorGray e)) @ [CHR 0x09]) @ fn) @ '':'') @ fl) @ '':''"
    have 0: "holds B S"
      unfolding B_def S_def buf_Gray_def
      by (rule holds_AppendByte, rule holds_Append, rule holds_AppendByte, rule holds_Append,
          rule holds_AppendByte, rule holds_on_color, rule Suc.prems)
    show ?thesis
    proof (cases "AppendInt_repr e line 0")
      case (Inl p)
      then show ?thesis
        using occ True
        by (simp add: callstack_frames_Suc frame_line_def AppendInt_def pbind_def Let_def)
    next
      case (Inr ds)
      define B' where "B' = (if color l then buf_Off e (AppendByte e (Append e B ds) (CHR 0x0A))
                             else AppendByte e (Append e B ds) (CHR 0x0A))"
      have "holds (AppendByte e (Append e B ds) (CHR 0x0A)) ((S @ ds) @ [CHR 0x0A])"
        by (rule holds_AppendByte, rule holds_Append, rule 0)
      then have 1: "holds B' (((S @ ds) @ [CHR 0x0A]) @ on_color l (colorOff e))"
        unfolding B'_def buf_Off_def by (rule holds_on_color)
      have lhs: "callstack_loop e l stk (Suc n) i b = callstack_loop e l stk n (Suc i) B'"
        using occ True Inr by (simp add: AppendInt_def pbind_def Let_def B_def B'_def)
      have rhs: "pbind (pconcat (map (frame_line e l) (callstack_frames e l stk (Suc n) i)))
                   (\<lambda>k. Inr (s @ k))
               = pbind (pconcat (map (frame_line e l) (callstack_frames e l stk n (Suc i))))
                   (\<lambda>k. Inr ((((S @ ds) @ [CHR 0x0A]) @ on_color l (colorOff e)) @ k))"
        using occ True Inr
        by (simp add: callstack_frames_Suc frame_line_def pbind_assoc pbind_Inr S_def)
      show ?thesis
        unfolding lhs rhs using 1 by (rule Suc.IH)
    qed
  qed
qed

lemma holds_append_callstack:
  "holds b s \<Longrightarrow>
   rel_sum (=) holds (append_callstack e l stk p b)
     (pbind (callstack_bytes e l stk p) (\<lambda>k. Inr (s @ k)))"
  by (simp add: append_callstack_def callstack_bytes_def holds_callstack_loop pbind_Inr)

lemma holds_format_record:
  "rel_sum (=) holds (format_record e l now stk p d) (record_bytes e l now stk p d)"
proof -
  have 0: "holds (append_prefix e l p (Reset (buf l))) ([] @ prefix_bytes l p)"
    by (rule holds_append_prefix, rule holds_Reset)
  have "rel_sum (=) holds (format_record e l now stk p d)
          (pbind (pbind (timestamp_bytes e l now) (\<lambda>t. Inr (([] @ prefix_bytes l p) @ t))) (\<lambda>s.
           pbind (pbind (location_bytes e l stk p) (\<lambda>c. Inr (s @ c))) (\<lambda>s.
           pbind (callstack_bytes e l stk p) (\<lambda>k. Inr ((s @ message_bytes d) @ k)))))"
    unfolding format_record_def
    apply (rule rel_pbind)
     apply (rule holds_append_timestamp [OF 0])
    apply (rule rel_pbind)
     apply (erule holds_append_location)
    apply (rule holds_append_callstack)
    apply (erule holds_append_message)
    done
  then show ?thesis
    by (simp add: record_bytes_def pbind_assoc pbind_Inr)
qed

lemma format_record_cases:
  "(\<exists>p. format_record e l now stk pr d = Inl p \<and> record_bytes e l now stk pr d = Inl p) \<or>
   (\<exists>b. format_record e l now stk pr d = Inr b \<and> record_bytes e l now stk pr d = Inr (Bytes b))"
  using holds_format_record [of e l now stk pr d]
  by (cases "format_record e l now stk pr d"; cases "record_bytes e l now stk pr d")
     (auto simp: holds_def)

lemma map_sum_format_record:
  "map_sum id Bytes (format_record e l now stk pr d) = record_bytes e l now stk pr d"
  using format_record_cases [of e l now stk pr d] by auto

lemma sdiv_small: "val e < 100 \<Longrightarrow> val e sdiv 10 < 10"
  by (auto simp: signed_divide_int_def sgn_if)

lemma AppendInt_loop_by_width:
  "val e sdiv 10 < 10 \<Longrightarrow> remaining < 10 \<Longrightarrow> width - 1 \<le> reprCount \<Longrightarrow> 0 \<le> reprCount
   \<Longrightarrow> reprCount < int (length repr)
   \<Longrightarrow> \<exists>repr' reprCount' remaining'.
         AppendInt_loop e repr reprCount remaining width = Inr (repr', reprCount', remaining')
         \<and> 0 \<le> reprCount' \<and> reprCount' < int (length repr')"
proof (induction e repr reprCount remaining width rule: AppendInt_loop.induct)
  case (1 e repr reprCount remaining width)
  show ?case
  proof (cases "1 < width")
    case True
    have "\<exists>repr' reprCount' remaining'.
            AppendInt_loop e (repr[nat reprCount := byte (48 + remaining - val e sdiv 10 * 10)])
              (reprCount - 1) (val e sdiv 10) (width - 1) = Inr (repr', reprCount', remaining')
            \<and> 0 \<le> reprCount' \<and> reprCount' < int (length repr')"
      using 1 True by (intro "1.IH") auto
    then show ?thesis
      using 1(2-) True by (subst AppendInt_loop.simps) (simp add: Let_def)
  next
    case False
    then show ?thesis
      using 1(2-) by (subst AppendInt_loop.simps) simp
  qed
qed

lemma AppendInt_repr_returns:
  assumes "val e < 100" "width \<le> 8"
  shows "\<exists>digits. AppendInt_repr e remaining width = Inr digits"
proof -
  have c: "val e sdiv 10 < 10" using assms(1) by (rule sdiv_small)
  show ?thesis
  proof (cases "10 \<le> remaining \<or> 1 < width")
    case True
    have "\<exists>repr' reprCount' remaining'.
            AppendInt_loop e ((replicate 8 (CHR 0x00))[nat 7 := byte (48 + remaining - val e sdiv 10 * 10)])
              (7 - 1) (val e sdiv 10) (width - 1) = Inr (repr', reprCount', remaining')
            \<and> 0 \<le> reprCount' \<and> reprCount' < int (length repr')"
      using c assms(2) by (intro AppendInt_loop_by_width) auto
    then show ?thesis
      using True by (subst AppendInt_repr_def, subst AppendInt_loop.simps) (auto simp: Let_def)
  next
    case False
    then show ?thesis
      by (subst AppendInt_repr_def, subst AppendInt_loop.simps) auto
  qed
qed

lemma AppendInt_loop_val:
  "val e' = val e \<Longrightarrow> AppendInt_loop e' repr reprCount remaining width
     = AppendInt_loop e repr reprCount remaining width"
proof (induction e repr reprCount remaining width rule: AppendInt_loop.induct)
  case (1 e repr reprCount remaining width)
  show ?case
  proof (cases "(10 \<le> remaining \<or> 1 < width) \<and> 0 \<le> reprCount \<and> reprCount < int (length repr)")
    case True
    have "AppendInt_loop e' (repr[nat reprCount := byte (48 + remaining - val e sdiv 10 * 10)])
            (reprCount - 1) (val e sdiv 10) (width - 1)
        = AppendInt_loop e (repr[nat reprCount := byte (48 + remaining - val e sdiv 10 * 10)])
            (reprCount - 1) (val e sdiv 10) (width - 1)"
      using True "1.prems" by (intro "1.IH") auto
    then show ?thesis
      using True "1.prems"
      by (simp add: AppendInt_loop.simps [of e' repr] AppendInt_loop.simps [of e repr] Let_def)
  next
    case False
    then show ?thesis
      using "1.prems"
      by (auto simp: AppendInt_loop.simps [of e' repr] AppendInt_loop.simps [of e repr] Let_def)
  qed
qed

lemma AppendInt_repr_val: "val e' = val e \<Longrightarrow> AppendInt_repr e' v w = AppendInt_repr e v w"
  by (simp add: AppendInt_repr_def AppendInt_loop_val [of e' e])

lemma timestamp_bytes_returns:
  assumes "val e < 100"
  shows "\<exists>t. timestamp_bytes e l now = Inr t"
proof -
  obtain y where y: "AppendInt_repr e (year now) 4 = Inr y"
    using AppendInt_repr_returns [OF assms, of 4] by auto
  obtain mo where mo: "AppendInt_repr e (month now) 2 = Inr mo"
    using AppendInt_repr_returns [OF assms, of 2] by auto
  obtain d where d: "AppendInt_repr e (day now) 2 = Inr d"
    using AppendInt_repr_returns [OF assms, of 2] by auto
  obtain h where h: "AppendInt_repr e (hour now) 2 = Inr h"
    using AppendInt_repr_returns [OF assms, of 2] by auto
  obtain mi where mi: "AppendInt_repr e (minute now) 2 = Inr mi"
    using AppendInt_repr_returns [OF assms, of 2] by auto
  obtain s where s: "AppendInt_repr e (second now) 2 = Inr s"
    using AppendInt_repr_returns [OF assms, of 2] by auto
  show ?thesis
    by (simp add: timestamp_bytes_def y mo d h mi s pbind_Inr)
qed

lemma location_bytes_returns:
  assumes "val e < 100"
  shows "\<exists>c. location_bytes e l stk p = Inr c"
proof -
  obtain fl fn line ok where occ:
    "getOccurrence e l (lib_frame e ''output'' 249 # stk) 0 = (fl, fn, line, ok)"
    by (cases "getOccurrence e l (lib_frame e ''output'' 249 # stk) 0") auto
  obtain n where n: "AppendInt_repr e line 0 = Inr n"
    using AppendInt_repr_returns [OF assms, of 0] by auto
  show ?thesis
    by (simp add: location_bytes_def occ n pbind_Inr)
qed

lemma frame_line_returns:
  assumes "val e < 100"
  shows "\<exists>c. frame_line e l occ = Inr c"
proof -
  obtain fl fn line ok where occ: "occ = (fl, fn, line, ok)"
    by (cases occ) auto
  obtain n where n: "AppendInt_repr e line 0 = Inr n"
    using AppendInt_repr_returns [OF assms, of 0] by auto
  show ?thesis
    by (simp add: frame_line_def occ n pbind_Inr)
qed

lemma pconcat_returns:
  "(\<And>m. m \<in> set ms \<Longrightarrow> \<exists>x. m = Inr x) \<Longrightarrow> \<exists>xs. pconcat ms = Inr xs"
proof (induction ms)
  case Nil
  then show ?case by simp
next
  case (Cons m ms)
  obtain x where "m = Inr x" using Cons.prems by auto
  moreover obtain xs where "pconcat ms = Inr xs" using Cons by auto
  ultimately show ?case by (simp add: pbind_Inr)
qed

lemma callstack_bytes_returns:
  assumes "val e < 100"
  shows "\<exists>k. callstack_bytes e l stk p = Inr k"
proof (cases "Callstack p")
  case False
  then show ?thesis by (simp add: callstack_bytes_def)
next
  case True
  have "\<exists>xs. pconcat (map (frame_line e l) (callstack_frames e l stk maxCallDepth 0)) = Inr xs"
  proof (rule pconcat_returns)
    fix m assume "m \<in> set (map (frame_line e l) (callstack_frames e l stk maxCallDepth 0))"
    then obtain occ where "m = frame_line e l occ" by auto
    then show "\<exists>x. m = Inr x" using frame_line_returns [OF assms] by simp
  qed
  then show ?thesis using True by (simp add: callstack_bytes_def)
qed

lemma record_bytes_returns:
  assumes "val e < 100"
  shows "\<exists>s. record_bytes e l now stk p d = Inr s"
proof -
  obtain t where t: "timestamp_bytes e l now = Inr t"
    using timestamp_bytes_returns [OF assms] by blast
  obtain c where c: "location_bytes e l stk p = Inr c"
    using location_bytes_returns [OF assms] by blast
  obtain k where k: "callstack_bytes e l stk p = Inr k"
    using callstack_bytes_returns [OF assms] by blast
  show ?thesis
    by (simp add: record_bytes_def t c k pbind_Inr)
qed

subsection \<open>What one pass writes\<close>

lemma output_quiet: "quiet l \<Longrightarrow> output e l w stk p d = Inr (None, l, w)"
  by (simp add: output_def IsQuiet_def)

lemma output_writes:
  assumes "\<not> quiet l" and "record_bytes e l (clock e (ticks w)) stk p d = Inr s"
  shows "\<exists>b. output e l w stk p d =
           Inr (write_err e (out l) s, l\<lparr>buf := b\<rparr>,
                w\<lparr>ticks := Suc (ticks w), writes := writes w @ [(out l, s)]\<rparr>)"
proof -
  obtain b where b: "format_record e l (clock e (ticks w)) stk p d = Inr b" and s: "Bytes b = s"
    using format_record_cases [of e l "clock e (ticks w)" stk p d] assms(2) by auto
  have "output e l w stk p d =
          Inr (write_err e (out l) s, l\<lparr>buf := b\<rparr>,
               w\<lparr>ticks := Suc (ticks w), writes := writes w @ [(out l, s)]\<rparr>)"
    using assms(1) b s by (simp add: output_def IsQuiet_def time_Now_def Write_def pbind_Inr)
  then show ?thesis ..
qed

lemma output_panics:
  assumes "\<not> quiet l" and "record_bytes e l (clock e (ticks w)) stk p d = Inl x"
  shows "output e l w stk p d = Inl x"
proof -
  have "format_record e l (clock e (ticks w)) stk p d = Inl x"
    using format_record_cases [of e l "clock e (ticks w)" stk p d] assms(2) by auto
  then show ?thesis
    using assms(1) by (simp add: output_def IsQuiet_def time_Now_def pbind_Inl)
qed

subsection \<open>What the bytes depend on\<close>

lemma timestamp_bytes_cong:
  "color l' = color l \<Longrightarrow> timestamp l' = timestamp l \<Longrightarrow>
   timestamp_bytes e l' now = timestamp_bytes e l now"
  by (simp add: timestamp_bytes_def on_color_def)

lemma getOccurrence_cong:
  "depth l' = depth l \<Longrightarrow> getOccurrence e l' stk k = getOccurrence e l stk k"
  by (simp add: getOccurrence_def)

lemma location_bytes_cong:
  "color l' = color l \<Longrightarrow> depth l' = depth l \<Longrightarrow>
   location_bytes e l' stk p = location_bytes e l stk p"
  by (simp add: location_bytes_def on_color_def getOccurrence_cong [of l' l])

lemma callstack_bytes_cong:
  "color l' = color l \<Longrightarrow> depth l' = depth l \<Longrightarrow>
   callstack_bytes e l' stk p = callstack_bytes e l stk p"
  by (simp add: callstack_bytes_def callstack_frames_def frame_line_def on_color_def
      getOccurrence_cong [of l' l] cong: map_cong)

lemma record_bytes_cong:
  "color l' = color l \<Longrightarrow> timestamp l' = timestamp l \<Longrightarrow> depth l' = depth l \<Longrightarrow>
   record_bytes e l' now stk p d = record_bytes e l now stk p d"
  by (simp add: record_bytes_def prefix_bytes_def timestamp_bytes_cong [of l' l]
      location_bytes_cong [of l' l] callstack_bytes_cong [of l' l])

lemma Output_quiet: "quiet l \<Longrightarrow> Output e l w stk p d = Inr (None, l, w)"
  by (simp add: Output_def output_quiet pbind_Inr Let_def split: option.splits)

lemma Output_no_file:
  "logFile l = None \<Longrightarrow> Output e l w stk p d = output e l w (lib_frame e ''Output'' 205 # stk) p d"
  by (simp add: Output_def)

lemma Output_file_ok:
  assumes f: "logFile l = Some f" and q: "\<not> quiet l"
    and fb: "record_bytes e (l\<lparr>color := False\<rparr>) (clock e (ticks w))
               (lib_frame e ''Output'' 201 # stk) p d = Inr fb"
    and ok: "write_err e f fb = None"
    and pb: "record_bytes e l (clock e (Suc (ticks w))) (lib_frame e ''Output'' 205 # stk) p d = Inr pb"
  shows "\<exists>b. Output e l w stk p d =
           Inr (write_err e (out l) pb, l\<lparr>buf := b\<rparr>,
                w\<lparr>ticks := Suc (Suc (ticks w)), writes := writes w @ [(f, fb), (out l, pb)]\<rparr>)"
proof -
  define c where "c = l\<lparr>color := False, out := f\<rparr>"
  define w1 where "w1 = w\<lparr>ticks := Suc (ticks w), writes := writes w @ [(f, fb)]\<rparr>"
  have "record_bytes e c (clock e (ticks w)) (lib_frame e ''Output'' 201 # stk) p d = Inr fb"
    using fb record_bytes_cong [of c "l\<lparr>color := False\<rparr>" e] by (simp add: c_def)
  moreover have "\<not> quiet c" using q by (simp add: c_def)
  ultimately obtain b1 where 1:
    "output e c w (lib_frame e ''Output'' 201 # stk) p d = Inr (None, c\<lparr>buf := b1\<rparr>, w1)"
    using output_writes [of c e w "lib_frame e ''Output'' 201 # stk" p d fb] ok
    by (auto simp: c_def w1_def)
  have "record_bytes e l (clock e (ticks w1)) (lib_frame e ''Output'' 205 # stk) p d = Inr pb"
    using pb by (simp add: w1_def)
  then obtain b where 2:
    "output e l w1 (lib_frame e ''Output'' 205 # stk) p d =
       Inr (write_err e (out l) pb, l\<lparr>buf := b\<rparr>,
            w1\<lparr>ticks := Suc (ticks w1), writes := writes w1 @ [(out l, pb)]\<rparr>)"
    using output_writes [OF q, of e w1 "lib_frame e ''Output'' 205 # stk" p d pb] by auto
  have "Output e l w stk p d =
          Inr (write_err e (out l) pb, l\<lparr>buf := b\<rparr>,
               w\<lparr>ticks := Suc (Suc (ticks w)), writes := writes w @ [(f, fb), (out l, pb)]\<rparr>)"
    using f 1 2 by (simp add: Output_def Let_def pbind_Inr c_def [symmetric]) (simp add: w1_def)
  then show ?thesis ..
qed

lemma Output_file_fails:
  assumes f: "logFile l = Some f" and q: "\<not> quiet l"
    and fb: "record_bytes e (l\<lparr>color := False\<rparr>) (clock e (ticks w))
               (lib_frame e ''Output'' 201 # stk) p d = Inr fb"
    and bad: "write_err e f fb = Some x"
  shows "Output e l w stk p d =
           Inr (Some x, l, w\<lparr>ticks := Suc (ticks w), writes := writes w @ [(f, fb)]\<rparr>)"
proof -
  define c where "c = l\<lparr>color := False, out := f\<rparr>"
  have "record_bytes e c (clock e (ticks w)) (lib_frame e ''Output'' 201 # stk) p d = Inr fb"
    using fb record_bytes_cong [of c "l\<lparr>color := False\<rparr>" e] by (simp add: c_def)
  moreover have "\<not> quiet c" using q by (simp add: c_def)
  ultimately obtain b1 where 1:
    "output e c w (lib_frame e ''Output'' 201 # stk) p d =
       Inr (Some x, c\<lparr>buf := b1\<rparr>, w\<lparr>ticks := Suc (ticks w), writes := writes w @ [(f, fb)]\<rparr>)"
    using output_writes [of c e w "lib_frame e ''Output'' 201 # stk" p d fb] bad
    by (auto simp: c_def)
  show ?thesis
    using f 1 by (simp add: Output_def Let_def pbind_Inr c_def [symmetric])
qed

lemma Output_panics_file:
  assumes f: "logFile l = Some f" and q: "\<not> quiet l"
    and fb: "record_bytes e (l\<lparr>color := False\<rparr>) (clock e (ticks w))
               (lib_frame e ''Output'' 201 # stk) p d = Inl x"
  shows "Output e l w stk p d = Inl x"
proof -
  define c where "c = l\<lparr>color := False, out := f\<rparr>"
  have "record_bytes e c (clock e (ticks w)) (lib_frame e ''Output'' 201 # stk) p d = Inl x"
    using fb record_bytes_cong [of c "l\<lparr>color := False\<rparr>" e] by (simp add: c_def)
  moreover have "\<not> quiet c" using q by (simp add: c_def)
  ultimately have "output e c w (lib_frame e ''Output'' 201 # stk) p d = Inl x"
    by (rule output_panics [rotated])
  then show ?thesis
    using f by (simp add: Output_def Let_def pbind_Inl c_def [symmetric])
qed

lemma Output_panics_primary:
  assumes f: "logFile l = Some f" and q: "\<not> quiet l"
    and fb: "record_bytes e (l\<lparr>color := False\<rparr>) (clock e (ticks w))
               (lib_frame e ''Output'' 201 # stk) p d = Inr fb"
    and ok: "write_err e f fb = None"
    and pb: "record_bytes e l (clock e (Suc (ticks w))) (lib_frame e ''Output'' 205 # stk) p d = Inl x"
  shows "Output e l w stk p d = Inl x"
proof -
  define c where "c = l\<lparr>color := False, out := f\<rparr>"
  define w1 where "w1 = w\<lparr>ticks := Suc (ticks w), writes := writes w @ [(f, fb)]\<rparr>"
  have "record_bytes e c (clock e (ticks w)) (lib_frame e ''Output'' 201 # stk) p d = Inr fb"
    using fb record_bytes_cong [of c "l\<lparr>color := False\<rparr>" e] by (simp add: c_def)
  moreover have "\<not> quiet c" using q by (simp add: c_def)
  ultimately obtain b1 where 1:
    "output e c w (lib_frame e ''Output'' 201 # stk) p d = Inr (None, c\<lparr>buf := b1\<rparr>, w1)"
    using output_writes [of c e w "lib_frame e ''Output'' 201 # stk" p d fb] ok
    by (auto simp: c_def w1_def)
  have "record_bytes e l (clock e (ticks w1)) (lib_frame e ''Output'' 205 # stk) p d = Inl x"
    using pb by (simp add: w1_def)
  then have "output e l w1 (lib_frame e ''Output'' 205 # stk) p d = Inl x"
    by (rule output_panics [OF q])
  then show ?thesis
    using f 1 by (simp add: Output_def Let_def pbind_Inr c_def [symmetric])
qed

text \<open>Formatting panics only through \<open>AppendInt\<close>, and \<open>AppendInt\<close> only when \<open>val\<close> is 100
  or more.\<close>

lemma record_bytes_panics: "record_bytes e l now stk p d = Inl x \<Longrightarrow> 100 \<le> val e"
  using record_bytes_returns [of e l now stk p d] by (cases "val e < 100") auto

text \<open>Every run of \<open>Output\<close> on a logger that is not quiet, without and with a file.\<close>

lemma Output_no_file_cases:
  assumes n: "logFile l = None" and q: "\<not> quiet l"
  shows "case Output e l w stk p d of
           Inl x \<Rightarrow> 100 \<le> val e
         | Inr (err, l', w') \<Rightarrow>
             \<exists>pb b. record_bytes e l (clock e (ticks w)) (lib_frame e ''Output'' 205 # stk) p d = Inr pb \<and>
               err = write_err e (out l) pb \<and> l' = l\<lparr>buf := b\<rparr> \<and>
               w' = w\<lparr>ticks := Suc (ticks w), writes := writes w @ [(out l, pb)]\<rparr>"
proof (cases "record_bytes e l (clock e (ticks w)) (lib_frame e ''Output'' 205 # stk) p d")
  case (Inl x)
  then show ?thesis
    using n output_panics [OF q Inl] record_bytes_panics [OF Inl] by (simp add: Output_no_file)
next
  case (Inr pb)
  then show ?thesis
    using n output_writes [OF q Inr] by (auto simp: Output_no_file)
qed

lemma Output_file_cases:
  assumes f: "logFile l = Some f" and q: "\<not> quiet l"
  shows "case Output e l w stk p d of
           Inl x \<Rightarrow> 100 \<le> val e
         | Inr (err, l', w') \<Rightarrow>
             \<exists>fb. record_bytes e (l\<lparr>color := False\<rparr>) (clock e (ticks w))
                    (lib_frame e ''Output'' 201 # stk) p d = Inr fb \<and>
               (case write_err e f fb of
                  Some x \<Rightarrow> err = Some x \<and> l' = l \<and>
                    w' = w\<lparr>ticks := Suc (ticks w), writes := writes w @ [(f, fb)]\<rparr>
                | None \<Rightarrow>
                    \<exists>pb b. record_bytes e l (clock e (Suc (ticks w)))
                             (lib_frame e ''Output'' 205 # stk) p d = Inr pb \<and>
                      err = write_err e (out l) pb \<and> l' = l\<lparr>buf := b\<rparr> \<and>
                      w' = w\<lparr>ticks := Suc (Suc (ticks w)),
                             writes := writes w @ [(f, fb), (out l, pb)]\<rparr>)"
proof (cases "record_bytes e (l\<lparr>color := False\<rparr>) (clock e (ticks w))
               (lib_frame e ''Output'' 201 # stk) p d")
  case (Inl x)
  then show ?thesis
    using Output_panics_file [OF f q Inl] record_bytes_panics [OF Inl] by simp
next
  case fb: (Inr fb)
  show ?thesis
  proof (cases "write_err e f fb")
    case bad: (Some x)
    show ?thesis
      using Output_file_fails [OF f q fb bad] fb bad by simp
  next
    case ok: None
    show ?thesis
    proof (cases "record_bytes e l (clock e (Suc (ticks w))) (lib_frame e ''Output'' 205 # stk) p d")
      case (Inl x)
      then show ?thesis
        using Output_panics_primary [OF f q fb ok Inl] record_bytes_panics [OF Inl] by simp
    next
      case (Inr pb)
      then show ?thesis
        using Output_file_ok [OF f q fb ok Inr] fb ok by auto
    qed
  qed
qed

lemma Output_Inl_val:
  assumes "Output e l w stk p d = Inl x"
  shows "100 \<le> val e"
proof (cases "quiet l")
  case True
  then show ?thesis using assms by (simp add: Output_quiet)
next
  case q: False
  show ?thesis
  proof (cases "logFile l")
    case None
    then show ?thesis
      using Output_no_file_cases [OF None q, of e w stk p d] assms by simp
  next
    case (Some f)
    then show ?thesis
      using Output_file_cases [OF Some q, of e w stk p d] assms by simp
  qed
qed

lemma Output_no_file_Inr:
  assumes "logFile l = None" and "\<not> quiet l" and "Output e l w stk p d = Inr (err, l', w')"
  shows "\<exists>pb b. record_bytes e l (clock e (ticks w)) (lib_frame e ''Output'' 205 # stk) p d = Inr pb \<and>
               err = write_err e (out l) pb \<and> l' = l\<lparr>buf := b\<rparr> \<and>
               w' = w\<lparr>ticks := Suc (ticks w), writes := writes w @ [(out l, pb)]\<rparr>"
  using Output_no_file_cases [OF assms(1,2), of e w stk p d] assms(3) by simp

lemma Output_file_Inr:
  assumes "logFile l = Some f" and "\<not> quiet l" and "Output e l w stk p d = Inr (err, l', w')"
  shows "\<exists>fb. record_bytes e (l\<lparr>color := False\<rparr>) (clock e (ticks w))
                    (lib_frame e ''Output'' 201 # stk) p d = Inr fb \<and>
               (case write_err e f fb of
                  Some x \<Rightarrow> err = Some x \<and> l' = l \<and>
                    w' = w\<lparr>ticks := Suc (ticks w), writes := writes w @ [(f, fb)]\<rparr>
                | None \<Rightarrow>
                    \<exists>pb b. record_bytes e l (clock e (Suc (ticks w)))
                             (lib_frame e ''Output'' 205 # stk) p d = Inr pb \<and>
                      err = write_err e (out l) pb \<and> l' = l\<lparr>buf := b\<rparr> \<and>
                      w' = w\<lparr>ticks := Suc (Suc (ticks w)),
                             writes := writes w @ [(f, fb), (out l, pb)]\<rparr>)"
  using Output_file_cases [OF assms(1,2), of e w stk p d] assms(3) by simp

lemma Output_cases:
  assumes q: "\<not> quiet l"
  shows "case Output e l w stk p d of
           Inl x \<Rightarrow> 100 \<le> val e
         | Inr (err, l', w') \<Rightarrow>
             (\<exists>b. l' = l\<lparr>buf := b\<rparr>) \<and>
             (case logFile l of
                None \<Rightarrow>
                  \<exists>pb. record_bytes e l (clock e (ticks w))
                         (lib_frame e ''Output'' 205 # stk) p d = Inr pb \<and>
                    err = write_err e (out l) pb \<and>
                    w' = w\<lparr>ticks := Suc (ticks w), writes := writes w @ [(out l, pb)]\<rparr>
              | Some f \<Rightarrow>
                  \<exists>fb. record_bytes e (l\<lparr>color := False\<rparr>) (clock e (ticks w))
                         (lib_frame e ''Output'' 201 # stk) p d = Inr fb \<and>
                    (case write_err e f fb of
                       Some x \<Rightarrow> err = Some x \<and>
                         w' = w\<lparr>ticks := Suc (ticks w), writes := writes w @ [(f, fb)]\<rparr>
                     | None \<Rightarrow>
                         \<exists>pb. record_bytes e l (clock e (Suc (ticks w)))
                                (lib_frame e ''Output'' 205 # stk) p d = Inr pb \<and>
                           err = write_err e (out l) pb \<and>
                           w' = w\<lparr>ticks := Suc (Suc (ticks w)),
                                  writes := writes w @ [(f, fb), (out l, pb)]\<rparr>))"
proof (cases "Output e l w stk p d")
  case (Inl x)
  then show ?thesis using Output_Inl_val [OF Inl] by simp
next
  case (Inr r)
  obtain err l' w' where r: "r = (err, l', w')" by (cases r)
  have O: "Output e l w stk p d = Inr (err, l', w')" using Inr r by simp
  have same: "l = l\<lparr>buf := buf l\<rparr>" by simp
  show ?thesis
  proof (cases "logFile l")
    case None
    obtain pb b where 1:
      "record_bytes e l (clock e (ticks w)) (lib_frame e ''Output'' 205 # stk) p d = Inr pb"
      "err = write_err e (out l) pb" "l' = l\<lparr>buf := b\<rparr>"
      "w' = w\<lparr>ticks := Suc (ticks w), writes := writes w @ [(out l, pb)]\<rparr>"
      using Output_no_file_Inr [OF None q O] by blast
    have "\<exists>b. l' = l\<lparr>buf := b\<rparr>" using 1(3) ..
    then show ?thesis using 1(1,2,4) by (simp add: O None)
  next
    case (Some f)
    obtain fb where fb: "record_bytes e (l\<lparr>color := False\<rparr>) (clock e (ticks w))
                    (lib_frame e ''Output'' 201 # stk) p d = Inr fb"
      and rest: "case write_err e f fb of
                  Some x \<Rightarrow> err = Some x \<and> l' = l \<and>
                    w' = w\<lparr>ticks := Suc (ticks w), writes := writes w @ [(f, fb)]\<rparr>
                | None \<Rightarrow>
                    \<exists>pb b. record_bytes e l (clock e (Suc (ticks w)))
                             (lib_frame e ''Output'' 205 # stk) p d = Inr pb \<and>
                      err = write_err e (out l) pb \<and> l' = l\<lparr>buf := b\<rparr> \<and>
                      w' = w\<lparr>ticks := Suc (Suc (ticks w)),
                             writes := writes w @ [(f, fb), (out l, pb)]\<rparr>"
      using Output_file_Inr [OF Some q O] by blast
    show ?thesis
    proof (cases "write_err e f fb")
      case bad: (Some x)
      have "l' = l" using rest bad by simp
      then have "l' = l\<lparr>buf := buf l\<rparr>" by simp
      then have "\<exists>b. l' = l\<lparr>buf := b\<rparr>" ..
      then show ?thesis using rest bad fb by (simp add: O Some)
    next
      case ok: None
      obtain pb b where 2:
        "record_bytes e l (clock e (Suc (ticks w))) (lib_frame e ''Output'' 205 # stk) p d = Inr pb"
        "err = write_err e (out l) pb" "l' = l\<lparr>buf := b\<rparr>"
        "w' = w\<lparr>ticks := Suc (Suc (ticks w)), writes := writes w @ [(f, fb), (out l, pb)]\<rparr>"
        using rest ok by auto
      have "\<exists>b. l' = l\<lparr>buf := b\<rparr>" using 2(3) ..
      then show ?thesis using 2(1,2,4) fb ok by (simp add: O Some)
    qed
  qed
qed

subsection \<open>Frames above \<open>Output\<close>\<close>

lemma getOccurrence_above:
  assumes "1 \<le> depth l" "0 \<le> k"
  shows "getOccurrence e l (x # f1 # stk) k = getOccurrence e l (x # f2 # stk) k"
proof -
  define n where "n = nat (depth l + 2 + k)"
  have n: "3 \<le> n" using assms by (simp add: n_def)
  have neg: "\<not> depth l + 2 + k < 0" using assms by simp
  have "(g # x # f1 # stk) ! n = (g # x # f2 # stk) ! n" for g
    using n by (simp add: nth_Cons')
  then show ?thesis
    using neg by (simp add: getOccurrence_def runtime_Caller_def n_def [symmetric])
qed

lemma location_bytes_above:
  "1 \<le> depth l \<Longrightarrow> location_bytes e l (f1 # stk) p = location_bytes e l (f2 # stk) p"
  by (simp add: location_bytes_def getOccurrence_above [of l 0 e _ f1 stk f2])

lemma callstack_frames_above:
  "1 \<le> depth l \<Longrightarrow> callstack_frames e l (f1 # stk) n i = callstack_frames e l (f2 # stk) n i"
  by (simp add: callstack_frames_def getOccurrence_above [of l _ e _ f1 stk f2])

lemma callstack_bytes_above:
  "1 \<le> depth l \<Longrightarrow> callstack_bytes e l (f1 # stk) p = callstack_bytes e l (f2 # stk) p"
  by (simp add: callstack_bytes_def callstack_frames_above [of l e f1 stk _ _ f2])

lemma record_bytes_above:
  "1 \<le> depth l \<Longrightarrow> record_bytes e l now (f1 # stk) p d = record_bytes e l now (f2 # stk) p d"
  by (simp add: record_bytes_def location_bytes_above [of l e f1 stk p f2]
      callstack_bytes_above [of l e f1 stk p f2])

subsection \<open>Erasing the escape sequences\<close>

lemma val_no_colors: "val (no_colors e) = val e"
  by (simp add: no_colors_def)

lemma AppendInt_repr_no_colors: "AppendInt_repr (no_colors e) v w = AppendInt_repr e v w"
  by (rule AppendInt_repr_val) (rule val_no_colors)

lemma getOccurrence_no_colors:
  "getOccurrence (no_colors e) l (lib_frame (no_colors e) name n # stk) k
     = getOccurrence e l (lib_frame e name n # stk) k"
  by (simp add: getOccurrence_def runtime_Caller_def lib_frame_def no_colors_def)

lemma on_color_no_colors:
  "on_color l (colorOff (no_colors e)) = []" "on_color l (colorBlue (no_colors e)) = []"
  "on_color l (colorOrange (no_colors e)) = []" "on_color l (colorGray (no_colors e)) = []"
  by (simp_all add: on_color_def no_colors_def)

lemma on_color_False: "on_color (l\<lparr>color := False\<rparr>) esc = []"
  by (simp add: on_color_def)

lemma prefix_of_no_colors:
  "Color (prefix_of (no_colors e) sev) = Plain (prefix_of e sev)"
  "Plain (prefix_of (no_colors e) sev) = Plain (prefix_of e sev)"
  "File (prefix_of (no_colors e) sev) = File (prefix_of e sev)"
  "Callstack (prefix_of (no_colors e) sev) = Callstack (prefix_of e sev)"
  by (cases sev; simp add: FatalPrefix_def ErrorPrefix_def WarnPrefix_def InfoPrefix_def
      DebugPrefix_def TracePrefix_def Red_def Orange_def Green_def Purple_def Cyan_def
      no_colors_def)+

lemma prefix_bytes_no_colors:
  "prefix_bytes l (prefix_of (no_colors e) sev) = prefix_bytes (l\<lparr>color := False\<rparr>) (prefix_of e sev)"
  by (simp add: prefix_bytes_def prefix_of_no_colors)

lemma timestamp_bytes_no_colors:
  "timestamp_bytes (no_colors e) l now = timestamp_bytes e (l\<lparr>color := False\<rparr>) now"
  by (simp add: timestamp_bytes_def AppendInt_repr_no_colors on_color_no_colors on_color_False)

lemma location_bytes_no_colors:
  "location_bytes (no_colors e) l stk (prefix_of (no_colors e) sev)
     = location_bytes e (l\<lparr>color := False\<rparr>) stk (prefix_of e sev)"
  by (simp add: location_bytes_def AppendInt_repr_no_colors on_color_no_colors on_color_False
      getOccurrence_no_colors prefix_of_no_colors
      getOccurrence_cong [of "l\<lparr>color := False\<rparr>" l])

lemma frame_line_no_colors:
  "frame_line (no_colors e) l occ = frame_line e (l\<lparr>color := False\<rparr>) occ"
  by (simp add: frame_line_def AppendInt_repr_no_colors on_color_no_colors on_color_False)

lemma frame_line_no_colors_fun:
  "frame_line (no_colors e) l = frame_line e (l\<lparr>color := False\<rparr>)"
  by (rule ext) (rule frame_line_no_colors)

lemma callstack_frames_no_colors:
  "callstack_frames (no_colors e) l stk n i = callstack_frames e (l\<lparr>color := False\<rparr>) stk n i"
  by (simp add: callstack_frames_def getOccurrence_no_colors
      getOccurrence_cong [of "l\<lparr>color := False\<rparr>" l])

lemma callstack_bytes_no_colors:
  "callstack_bytes (no_colors e) l stk (prefix_of (no_colors e) sev)
     = callstack_bytes e (l\<lparr>color := False\<rparr>) stk (prefix_of e sev)"
  by (simp add: callstack_bytes_def callstack_frames_no_colors frame_line_no_colors_fun
      prefix_of_no_colors)

lemma record_bytes_no_colors:
  "record_bytes (no_colors e) l now stk (prefix_of (no_colors e) sev) d
     = record_bytes e (l\<lparr>color := False\<rparr>) now stk (prefix_of e sev) d"
  by (simp add: record_bytes_def timestamp_bytes_no_colors location_bytes_no_colors
      callstack_bytes_no_colors prefix_bytes_no_colors)

lemma sdiv_big: "100 \<le> val e \<Longrightarrow> 10 \<le> val e sdiv 10"
  by (auto simp: signed_divide_int_def sgn_if)

lemma AppendInt_loop_runs_off:
  "10 \<le> val e sdiv 10 \<Longrightarrow> 10 \<le> remaining \<or> 1 < width \<Longrightarrow> reprCount < int (length repr)
   \<Longrightarrow> AppendInt_loop e repr reprCount remaining width = Inl IndexOutOfRange"
proof (induction e repr reprCount remaining width rule: AppendInt_loop.induct)
  case (1 e repr reprCount remaining width)
  show ?case
  proof (cases "0 \<le> reprCount")
    case True
    have "AppendInt_loop e (repr[nat reprCount := byte (48 + remaining - val e sdiv 10 * 10)])
            (reprCount - 1) (val e sdiv 10) (width - 1) = Inl IndexOutOfRange"
      using 1 True by (intro "1.IH") auto
    then show ?thesis
      using 1(3,4) True by (subst AppendInt_loop.simps) (simp add: Let_def)
  next
    case False
    then show ?thesis
      using 1(3) by (subst AppendInt_loop.simps) (simp add: Let_def)
  qed
qed

lemma AppendInt_out_of_range:
  "100 \<le> val e \<Longrightarrow> 10 \<le> remaining \<or> 1 < width \<Longrightarrow> AppendInt e b remaining width = Inl IndexOutOfRange"
  by (simp add: AppendInt_def AppendInt_repr_def AppendInt_loop_runs_off sdiv_big)

lemma AppendInt_repr_two_digits:
  assumes "10 \<le> v" "val e sdiv 10 < 10"
  shows "AppendInt_repr e v 0 = Inr [byte (48 + val e sdiv 10), byte (48 + v - val e sdiv 10 * 10)]"
proof -
  define r where "r = (replicate 8 (CHR 0x00))[nat 7 := byte (48 + v - val e sdiv 10 * 10)]"
  have 2: "AppendInt_loop e r 6 (val e sdiv 10) (- 1) = Inr (r, 6, val e sdiv 10)"
    using assms(2) by (subst AppendInt_loop.simps) simp
  have 1: "AppendInt_loop e (replicate 8 (CHR 0x00)) 7 v 0 = Inr (r, 6, val e sdiv 10)"
    using assms(1) 2 by (subst AppendInt_loop.simps) (simp add: Let_def r_def)
  have "length r = 8" by (simp add: r_def)
  moreover have "drop 6 (r[6 := x]) = [x, byte (48 + v - val e sdiv 10 * 10)]" for x
    by (simp add: r_def numeral_eq_Suc)
  ultimately show ?thesis
    by (simp add: AppendInt_repr_def 1)
qed

lemma AppendInt_never_decimal:
  "\<not> (AppendInt_repr e 10 0 = Inr ''10'' \<and> AppendInt_repr e 20 0 = Inr ''20'')"
proof (cases "val e sdiv 10 < 10")
  case True
  have "AppendInt_repr e 10 0 = Inr ''10'' \<Longrightarrow> byte (48 + val e sdiv 10) = CHR ''1''"
    using AppendInt_repr_two_digits [of 10 e] True by simp
  moreover have "AppendInt_repr e 20 0 = Inr ''20'' \<Longrightarrow> byte (48 + val e sdiv 10) = CHR ''2''"
    using AppendInt_repr_two_digits [of 20 e] True by simp
  ultimately show ?thesis by auto
next
  case False
  then have "AppendInt_loop e (replicate 8 (CHR 0x00)) 7 10 0 = Inl IndexOutOfRange"
    by (intro AppendInt_loop_runs_off) auto
  then show ?thesis by (simp add: AppendInt_repr_def)
qed

text \<open>Claim C1. The claim asks \<open>AppendInt(v, w)\<close> for the decimal string of \<open>v\<close>, padded with
  zeros to \<open>w\<close> characters. Line 26 takes the quotient of \<open>val\<close>, not of \<open>remaining\<close>, so the
  digit peeled off is \<open>remaining - (val / 10) * 10\<close> and the next \<open>remaining\<close> is \<open>val / 10\<close>,
  whatever the number was. With 0 for \<open>val\<close>, \<open>AppendInt(12, 0)\<close> appends the two bytes
  \<open>0<\<close> where the decimal string is \<open>12\<close>. By \<open>AppendInt_never_decimal\<close> above, no value
  of \<open>val\<close> renders both 10 and 20.\<close>

theorem AppendInt_12_wrong:
  "map_sum id Bytes (AppendInt env0 nil_Buffer 12 0) = Inr ''0<'' \<and> padded_decimal 12 0 = ''12''"
  by code_simp

subsection \<open>The severity methods\<close>

lemma emit_quiet: "quiet l \<Longrightarrow> emit e l w stk name n p d = Inr (l, w)"
  by (simp add: emit_def Output_quiet pbind_Inr)

lemma emit_no_file:
  assumes "logFile l = None" "\<not> quiet l"
    and "record_bytes e l (clock e (ticks w))
           (lib_frame e ''Output'' 205 # lib_frame e name n # stk) p d = Inr s"
  shows "\<exists>b. emit e l w stk name n p d =
           Inr (l\<lparr>buf := b\<rparr>, w\<lparr>ticks := Suc (ticks w), writes := writes w @ [(out l, s)]\<rparr>)"
proof -
  obtain b where "output e l w (lib_frame e ''Output'' 205 # lib_frame e name n # stk) p d =
      Inr (write_err e (out l) s, l\<lparr>buf := b\<rparr>,
           w\<lparr>ticks := Suc (ticks w), writes := writes w @ [(out l, s)]\<rparr>)"
    using output_writes [OF assms(2,3)] by auto
  then have "emit e l w stk name n p d =
           Inr (l\<lparr>buf := b\<rparr>, w\<lparr>ticks := Suc (ticks w), writes := writes w @ [(out l, s)]\<rparr>)"
    using assms(1) by (simp add: emit_def Output_no_file pbind_Inr)
  then show ?thesis ..
qed

lemma record_bytes_bare:
  assumes "\<not> timestamp l" "\<not> File p" "\<not> Callstack p"
  shows "record_bytes e l now stk p d = Inr (prefix_bytes l p @ message_bytes d)"
  using assms
  by (simp add: record_bytes_def timestamp_bytes_def location_bytes_def callstack_bytes_def pbind_Inr)

lemma message_bytes_Sprintln: "message_bytes (Sprintln v) = Sprintln v"
  by (simp add: message_bytes_def Sprintln_def)

text \<open>Claim C4. On a logger with timestamp and colour disabled, no file destination and quiet
  off (as \<open>New\<close> leaves it), \<open>Info("hello")\<close> makes one write to the primary destination, of
  exactly the bytes \<open>[INFO]  hello\<close> and a newline. A message that the formatted variant
  passes on gets one newline appended when it is empty or does not end in one, and none
  when it does.\<close>

theorem Info_hello:
  assumes "\<not> timestamp l" "\<not> color l" "logFile l = None" "\<not> quiet l"
  shows "(\<exists>b. Info e l w stk [''hello''] =
            Inr (l\<lparr>buf := b\<rparr>,
                 w\<lparr>ticks := Suc (ticks w),
                   writes := writes w @ [(out l, ''[INFO]  hello'' @ [CHR 0x0A])]\<rparr>)) \<and>
         (\<exists>b. Infof e l w stk s =
            Inr (l\<lparr>buf := b\<rparr>,
                 w\<lparr>ticks := Suc (ticks w),
                   writes := writes w @
                     [(out l, ''[INFO]  '' @ s @
                         (if s \<noteq> [] \<and> last s = CHR 0x0A then [] else [CHR 0x0A]))]\<rparr>))"
proof -
  have r: "record_bytes e l now stk' (InfoPrefix e) d = Inr (''[INFO]  '' @ message_bytes d)"
    for now stk' d
    using assms(1,2)
    by (simp add: record_bytes_bare InfoPrefix_def prefix_bytes_def plainInfo_def)
  have mb: "message_bytes s = s @ (if s \<noteq> [] \<and> last s = CHR 0x0A then [] else [CHR 0x0A])"
    by (simp add: message_bytes_def)
  have 1: "\<exists>b. Info e l w stk [''hello''] =
            Inr (l\<lparr>buf := b\<rparr>,
                 w\<lparr>ticks := Suc (ticks w),
                   writes := writes w @ [(out l, ''[INFO]  hello'' @ [CHR 0x0A])]\<rparr>)"
    using emit_no_file [OF assms(3,4) r [of "clock e (ticks w)"
          "lib_frame e ''Output'' 205 # lib_frame e ''Info'' 353 # stk" "Sprintln [''hello'']"]]
    by (simp add: Info_def message_bytes_Sprintln) (simp add: Sprintln_def)
  have 2: "\<exists>b. Infof e l w stk s =
            Inr (l\<lparr>buf := b\<rparr>,
                 w\<lparr>ticks := Suc (ticks w),
                   writes := writes w @
                     [(out l, ''[INFO]  '' @ s @
                         (if s \<noteq> [] \<and> last s = CHR 0x0A then [] else [CHR 0x0A]))]\<rparr>)"
    unfolding Infof_def mb [symmetric]
    using emit_no_file [OF assms(3,4) r [of "clock e (ticks w)"
          "lib_frame e ''Output'' 205 # lib_frame e ''Infof'' 358 # stk" s]]
    by simp
  show ?thesis using 1 2 by blast
qed

text \<open>The logger that \<open>New\<close> makes, with colour and timestamp switched off.\<close>

theorem Info_hello_witness:
  "\<not> timestamp logger_plain \<and> \<not> color logger_plain \<and> logFile logger_plain = None \<and>
   \<not> quiet logger_plain \<and>
   (\<exists>b. Info env0 logger_plain world0 stack0 [''hello''] =
            Inr (logger_plain\<lparr>buf := b\<rparr>,
                 world0\<lparr>ticks := Suc (ticks world0),
                   writes := writes world0 @ [(out logger_plain, ''[INFO]  hello'' @ [CHR 0x0A])]\<rparr>)) \<and>
   (\<exists>b. Infof env0 logger_plain world0 stack0 ''hello'' =
            Inr (logger_plain\<lparr>buf := b\<rparr>,
                 world0\<lparr>ticks := Suc (ticks world0),
                   writes := writes world0 @ [(out logger_plain, ''[INFO]  hello'' @ [CHR 0x0A])]\<rparr>))"
proof -
  have h: "\<not> timestamp logger_plain" "\<not> color logger_plain" "logFile logger_plain = None"
    "\<not> quiet logger_plain"
    by (simp_all add: logger_plain_def New_def WithoutColor_def WithoutTimestamp_def)
  show ?thesis
    using h Info_hello [OF h, of env0 world0 stack0 "''hello''"] by simp
qed

lemma wf_buf_nil: "wf_buf nil_Buffer"
  by (simp add: wf_buf_def nil_Buffer_def)

lemma Bytes_nil: "Bytes nil_Buffer = []"
  by (simp add: Bytes_def nil_Buffer_def)

lemma wf_buf_apply_op: "wf_buf b \<Longrightarrow> wf_buf (apply_op e b x)"
  by (cases x) (simp_all add: AppendByte_def wf_buf_Append)

lemma Bytes_apply_op: "wf_buf b \<Longrightarrow> Bytes (apply_op e b x) = Bytes b @ op_bytes x"
  by (cases x) (simp_all add: AppendByte_def Bytes_Append)

lemma Bytes_apply_ops:
  "wf_buf b \<Longrightarrow> Bytes (apply_ops e b xs) = Bytes b @ concat (map op_bytes xs)"
  by (induction xs arbitrary: b) (simp_all add: wf_buf_apply_op Bytes_apply_op)

text \<open>Claim C5. Whatever the buffer held before, after \<open>Reset\<close> its length is 0 and \<open>Bytes\<close>
  is empty; after \<open>Reset\<close> and any sequence of \<open>Append\<close> and \<open>AppendByte\<close> calls, \<open>Bytes\<close>
  is the concatenation of what was appended, in order, which is also what the same calls
  leave in a buffer that never held anything.\<close>

theorem Reset_then_appends:
  "len (Reset b) = 0 \<and> Bytes (Reset b) = [] \<and>
   Bytes (apply_ops e (Reset b) xs) = concat (map op_bytes xs) \<and>
   Bytes (apply_ops e (Reset b) xs) = Bytes (apply_ops e nil_Buffer xs)"
  by (simp add: Bytes_apply_ops wf_buf_Reset wf_buf_nil Bytes_Reset Bytes_nil) (simp add: Reset_def)




text \<open>Claim C7. With \<open>debug\<close> off, \<open>Debug\<close>, \<open>Debugf\<close>, \<open>Trace\<close> and \<open>Tracef\<close> return at once:
  logger and world are unchanged (no write, no clock reading), whatever the call stack
  and whatever \<open>quiet\<close> is. With \<open>debug\<close> on they call \<open>Output\<close> with their prefix and drop
  its error, exactly as \<open>Error\<close> does with its own.\<close>

theorem debug_gate:
  assumes "\<not> debug l"
  shows "Debug e l w stk v = Inr (l, w) \<and> Debugf e l w stk s = Inr (l, w) \<and>
         Trace e l w stk v = Inr (l, w) \<and> Tracef e l w stk s = Inr (l, w) \<and>
         Debug e (WithDebug l) w stk v =
           pbind (Output e (WithDebug l) w (lib_frame e ''Debug'' 364 # stk) (DebugPrefix e) (Sprintln v))
             (\<lambda>(err, l', w'). Inr (l', w')) \<and>
         Debugf e (WithDebug l) w stk s =
           pbind (Output e (WithDebug l) w (lib_frame e ''Debugf'' 371 # stk) (DebugPrefix e) s)
             (\<lambda>(err, l', w'). Inr (l', w')) \<and>
         Trace e (WithDebug l) w stk v =
           pbind (Output e (WithDebug l) w (lib_frame e ''Trace'' 378 # stk) (TracePrefix e) (Sprintln v))
             (\<lambda>(err, l', w'). Inr (l', w')) \<and>
         Tracef e (WithDebug l) w stk s =
           pbind (Output e (WithDebug l) w
                    (lib_frame e ''Trace'' 378 # lib_frame e ''Tracef'' 384 # stk)
                    (TracePrefix e) (Sprintln [s]))
             (\<lambda>(err, l', w'). Inr (l', w')) \<and>
         Error e l w stk v =
           pbind (Output e l w (lib_frame e ''Error'' 333 # stk) (ErrorPrefix e) (Sprintln v))
             (\<lambda>(err, l', w'). Inr (l', w'))"
  using assms
  by (simp add: Debug_def Debugf_def Trace_def Tracef_def Error_def emit_def IsDebug_def
      WithDebug_def)

text \<open>A logger as \<open>New\<close> makes it has \<open>debug\<close> off.\<close>

theorem debug_gate_witness:
  "\<not> debug logger_file \<and>
   Debug env0 logger_file world0 stack0 [''x''] = Inr (logger_file, world0) \<and>
   Debugf env0 logger_file world0 stack0 ''x'' = Inr (logger_file, world0) \<and>
   Trace env0 logger_file world0 stack0 [''x''] = Inr (logger_file, world0) \<and>
   Tracef env0 logger_file world0 stack0 ''x'' = Inr (logger_file, world0)"
proof -
  have h: "\<not> debug logger_file" by (simp add: logger_file_def New_def)
  show ?thesis
    using h debug_gate [OF h, of env0 world0 stack0 "[''x'']" "''x''"] by simp
qed

text \<open>Claim C8. The record of a TRACE emission is prefix, timestamp, message, and then
  one line per frame of \<open>fs\<close>, where \<open>fs\<close> holds the answers of \<open>getOccurrence\<close> for
  0, 1, ... up to the first that is not available, and never more than 50 of them. The
  loop is a structural recursion on the number of iterations left, so it ends.\<close>

theorem Trace_callstack_bounded:
  "(let fs = takeWhile (\<lambda>(file, fn, line, ok). ok)
               (map (\<lambda>k. getOccurrence e l (lib_frame e ''output'' 277 # stk) (int k)) [0..<50])
    in length fs \<le> 50 \<and>
       map_sum id Bytes (format_record e l now stk (TracePrefix e) d) =
         pbind (timestamp_bytes e l now) (\<lambda>t.
         pbind (pconcat (map (frame_line e l) fs)) (\<lambda>k.
         Inr (prefix_bytes l (TracePrefix e) @ t @ message_bytes d @ k))))"
proof -
  have "length (takeWhile (\<lambda>(file, fn, line, ok). ok)
               (map (\<lambda>k. getOccurrence e l (lib_frame e ''output'' 277 # stk) (int k)) [0..<50]))
          \<le> length (map (\<lambda>k. getOccurrence e l (lib_frame e ''output'' 277 # stk) (int k)) [0..<50])"
    by (rule length_takeWhile_le)
  then show ?thesis
    by (simp add: Let_def map_sum_format_record record_bytes_def location_bytes_def
        callstack_bytes_def callstack_frames_def maxCallDepth_def TracePrefix_def pbind_Inr)
qed

text \<open>A TRACE record at depth 2, from a user stack of two frames: two frame lines.\<close>

theorem Trace_callstack_bounded_witness:
  "map_sum id Bytes
     (format_record env0 (Depth (WithDebug logger_plain) 2) (clock env0 0)
        (lib_frame env0 ''Output'' 205 # lib_frame env0 ''Trace'' 378 # stack0)
        (TracePrefix env0) ''x'')
   = Inr (''[TRACE] x'' @ [CHR 0x0A] @ [CHR 0x09] @ ''main.run:main.go:7'' @ [CHR 0x0A]
          @ [CHR 0x09] @ ''main.main:main.go:3'' @ [CHR 0x0A])"
proof -
  have 1: "map_sum id Bytes
     (format_record env0 (Depth (WithDebug logger_plain) 2) (clock env0 0)
        (lib_frame env0 ''Output'' 205 # lib_frame env0 ''Trace'' 378 # stack0)
        (TracePrefix env0) ''x'')
    = pbind (timestamp_bytes env0 (Depth (WithDebug logger_plain) 2) (clock env0 0)) (\<lambda>t.
         pbind (pconcat (map (frame_line env0 (Depth (WithDebug logger_plain) 2))
           (takeWhile (\<lambda>(file, fn, line, ok). ok)
               (map (\<lambda>k. getOccurrence env0 (Depth (WithDebug logger_plain) 2)
                  (lib_frame env0 ''output'' 277 # lib_frame env0 ''Output'' 205
                     # lib_frame env0 ''Trace'' 378 # stack0) (int k)) [0..<50])))) (\<lambda>k.
         Inr (prefix_bytes (Depth (WithDebug logger_plain) 2) (TracePrefix env0) @ t
              @ message_bytes ''x'' @ k)))"
    using Trace_callstack_bounded [of env0 "Depth (WithDebug logger_plain) 2"
        "lib_frame env0 ''Output'' 205 # lib_frame env0 ''Trace'' 378 # stack0" "clock env0 0" "''x''"]
    unfolding Let_def by (rule conjunct2)
  show ?thesis
    unfolding 1 by code_simp
qed

text \<open>Claim C3, amended. On a logger with a file destination, not quiet, a run of \<open>Output\<close> with
  one of the six prefixes that does not panic makes exactly one write call to the file,
  first. When that write succeeds, exactly one write call to the primary destination
  follows; when it fails, \<open>Output\<close> returns its error and the primary destination gets no
  write. The file's bytes \<open>fb\<close> are what lines 217 to 297 format when every escape sequence
  is empty, whatever the colour flag \<open>c\<close>: the logger adds no escape to them. A run panics
  only inside \<open>AppendInt\<close>, and only when \<open>val\<close> is 100 or more.\<close>

theorem Output_two_writes:
  assumes "logFile l = Some f" and "\<not> quiet l"
  shows "case Output e l w stk (prefix_of e sev) d of
           Inl x \<Rightarrow> 100 \<le> val e
         | Inr (err, l', w') \<Rightarrow>
             (\<exists>b. l' = l\<lparr>buf := b\<rparr>) \<and>
             (\<exists>fb. map_sum id Bytes
                     (format_record (no_colors e) (l\<lparr>color := c\<rparr>) (clock e (ticks w))
                        (lib_frame e ''Output'' 201 # stk) (prefix_of (no_colors e) sev) d) = Inr fb \<and>
                (case write_err e f fb of
                   Some x \<Rightarrow> err = Some x \<and>
                     w' = w\<lparr>ticks := Suc (ticks w), writes := writes w @ [(f, fb)]\<rparr>
                 | None \<Rightarrow>
                     \<exists>pb. map_sum id Bytes
                            (format_record e l (clock e (Suc (ticks w)))
                               (lib_frame e ''Output'' 205 # stk) (prefix_of e sev) d) = Inr pb \<and>
                       err = write_err e (out l) pb \<and>
                       w' = w\<lparr>ticks := Suc (Suc (ticks w)),
                              writes := writes w @ [(f, fb), (out l, pb)]\<rparr>))"
proof -
  have fbytes: "record_bytes e (l\<lparr>color := False\<rparr>) now stk' (prefix_of e sev) d =
      map_sum id Bytes (format_record (no_colors e) (l\<lparr>color := c\<rparr>) now stk'
        (prefix_of (no_colors e) sev) d)" for now stk'
    by (simp add: map_sum_format_record record_bytes_no_colors)
  have pbytes: "record_bytes e l now stk' p d = map_sum id Bytes (format_record e l now stk' p d)"
    for now stk' p
    by (simp add: map_sum_format_record)
  note 1 = Output_cases [OF assms(2), of e w stk "prefix_of e sev" d,
      unfolded assms(1) option.case fbytes]
  show ?thesis
    using 1 unfolding pbytes .
qed

text \<open>An ERROR emission on a coloured logger with a file attached.\<close>

theorem Output_two_writes_witness:
  "logFile logger_file = Some 2 \<and> \<not> quiet logger_file \<and>
   (\<exists>fb pb b.
           Output env0 logger_file world0 stack0 (prefix_of env0 ERROR) ''x'' =
             Inr (None, logger_file\<lparr>buf := b\<rparr>,
                  world0\<lparr>ticks := Suc (Suc (ticks world0)),
                    writes := writes world0 @ [(2, fb), (out logger_file, pb)]\<rparr>) \<and>
           map_sum id Bytes
             (format_record (no_colors env0) (logger_file\<lparr>color := True\<rparr>) (clock env0 (ticks world0))
                (lib_frame env0 ''Output'' 201 # stack0) (prefix_of (no_colors env0) ERROR) ''x'') = Inr fb)"
proof -
  have h: "logFile logger_file = Some 2" "\<not> quiet logger_file"
    by (simp_all add: logger_file_def New_def)
  have v: "\<not> 100 \<le> val env0" by (simp add: env0_def)
  have ok: "write_err env0 dst bs = None" for dst bs by (simp add: env0_def)
  show ?thesis
    using h v Output_two_writes [where l = logger_file and f = 2 and e = env0 and w = world0
        and stk = stack0 and sev = ERROR and d = "''x''" and c = True, OF h]
    by (auto split: sum.splits simp: ok)
qed

text \<open>The claim as stated fails twice. When the write to the file fails, \<open>Output\<close> returns
  its error (line 202) and the primary destination gets no write. And a message that
  holds an escape sequence goes to the file as it is.\<close>

theorem Output_two_writes_counterexample:
  "Info env_full logger_file_plain world0 stack0 [''x''] =
     Inr (logger_file_plain, \<lparr>ticks = 1, writes = [(2, ''[INFO]  x'' @ [CHR 0x0A])]\<rparr>) \<and>
   map_sum id (\<lambda>(l, w). writes w)
     (Info env0 logger_file_plain world0 stack0 [[CHR 0x1B] @ ''[31mx'']) =
     Inr [(2, ''[INFO]  '' @ [CHR 0x1B] @ ''[31mx'' @ [CHR 0x0A]),
          (1, ''[INFO]  '' @ [CHR 0x1B] @ ''[31mx'' @ [CHR 0x0A])]"
proof -
  have l: "logFile logger_file_plain = Some 2" "\<not> quiet logger_file_plain"
    "\<not> timestamp logger_file_plain" "\<not> color logger_file_plain" "out logger_file_plain = 1"
    "\<not> timestamp (logger_file_plain\<lparr>color := False\<rparr>)"
    by (simp_all add: logger_file_plain_def New_def WithoutTimestamp_def)
  have r: "record_bytes e (logger_file_plain\<lparr>color := False\<rparr>) now stk (InfoPrefix e') d
             = Inr (''[INFO]  '' @ message_bytes d)" for e e' now stk d
    using l(6) by (simp add: record_bytes_bare InfoPrefix_def prefix_bytes_def plainInfo_def)
  have r': "record_bytes e logger_file_plain now stk (InfoPrefix e') d
             = Inr (''[INFO]  '' @ message_bytes d)" for e e' now stk d
    using l(3,4) by (simp add: record_bytes_bare InfoPrefix_def prefix_bytes_def plainInfo_def)
  have bad: "write_err env_full 2 bs = Some ''no space left on device''" for bs
    by (simp add: env_full_def)
  have ok: "write_err env0 2 bs = None" for bs
    by (simp add: env0_def)
  have 1: "Info env_full logger_file_plain world0 stack0 [''x''] =
     Inr (logger_file_plain, \<lparr>ticks = 1, writes = [(2, ''[INFO]  x'' @ [CHR 0x0A])]\<rparr>)"
    using Output_file_fails [OF l(1,2)
        r [of env_full "clock env_full (ticks world0)"
             "lib_frame env_full ''Output'' 201 # lib_frame env_full ''Info'' 353 # stack0"
             env_full "Sprintln [''x'']"] bad]
    by (simp add: Info_def emit_def pbind_Inr message_bytes_Sprintln world0_def)
       (simp add: Sprintln_def)
  obtain b where "Output env0 logger_file_plain world0 (lib_frame env0 ''Info'' 353 # stack0)
       (InfoPrefix env0) (Sprintln [[CHR 0x1B] @ ''[31mx'']) =
     Inr (write_err env0 (out logger_file_plain) (''[INFO]  '' @ message_bytes (Sprintln [[CHR 0x1B] @ ''[31mx''])),
          logger_file_plain\<lparr>buf := b\<rparr>,
          world0\<lparr>ticks := Suc (Suc (ticks world0)),
            writes := writes world0 @
              [(2, ''[INFO]  '' @ message_bytes (Sprintln [[CHR 0x1B] @ ''[31mx''])),
               (out logger_file_plain, ''[INFO]  '' @ message_bytes (Sprintln [[CHR 0x1B] @ ''[31mx'']))]\<rparr>)"
    using Output_file_ok [OF l(1,2)
        r [of env0 "clock env0 (ticks world0)"
             "lib_frame env0 ''Output'' 201 # lib_frame env0 ''Info'' 353 # stack0"
             env0 "Sprintln [[CHR 0x1B] @ ''[31mx'']"] ok
        r' [of env0 "clock env0 (Suc (ticks world0))"
             "lib_frame env0 ''Output'' 205 # lib_frame env0 ''Info'' 353 # stack0"
             env0 "Sprintln [[CHR 0x1B] @ ''[31mx'']"]]
    by blast
  then have 2: "map_sum id (\<lambda>(l, w). writes w)
     (Info env0 logger_file_plain world0 stack0 [[CHR 0x1B] @ ''[31mx'']) =
     Inr [(2, ''[INFO]  '' @ [CHR 0x1B] @ ''[31mx'' @ [CHR 0x0A]),
          (1, ''[INFO]  '' @ [CHR 0x1B] @ ''[31mx'' @ [CHR 0x0A])]"
    by (simp add: Info_def emit_def pbind_Inr message_bytes_Sprintln world0_def l(5))
       (simp add: Sprintln_def)
  show ?thesis using 1 2 by blast
qed

lemma record_bytes_no_stack:
  "\<not> File p \<Longrightarrow> \<not> Callstack p \<Longrightarrow>
   record_bytes e l now stk p d = record_bytes e l now stk' p d"
  by (simp add: record_bytes_def location_bytes_def callstack_bytes_def)

lemma record_bytes_same_frame:
  assumes "1 \<le> depth l \<or> sev = WARN \<or> sev = INFO"
  shows "record_bytes e l now (f1 # stk) (prefix_of e sev) d
           = record_bytes e l now (f2 # stk) (prefix_of e sev) d"
proof (cases "1 \<le> depth l")
  case True
  then show ?thesis by (rule record_bytes_above)
next
  case False
  then have "\<not> File (prefix_of e sev)" "\<not> Callstack (prefix_of e sev)"
    using assms by (auto simp: WarnPrefix_def InfoPrefix_def)
  then show ?thesis by (rule record_bytes_no_stack)
qed

text \<open>Claim C2, amended. Each pass reads the clock and resolves the caller itself, the file's
  pass first. When both clock readings agree, and the frame resolved lies above \<open>Output\<close>
  (\<open>depth\<close> at least 1) or the severity prints none (WARN, INFO), then in every run that
  does not panic the file's bytes \<open>fb\<close> are the record for that instant and stack formatted
  with every escape sequence erased, and, when the write to the file succeeds, the
  primary's bytes \<open>pb\<close> are the same record formatted with the logger's escapes; with
  colour off the two are equal. A run panics only inside \<open>AppendInt\<close>, and only when \<open>val\<close>
  is 100 or more.\<close>

theorem Output_passes_agree:
  assumes "logFile l = Some f" and "\<not> quiet l"
    and "clock e (Suc (ticks w)) = clock e (ticks w)"
    and "1 \<le> depth l \<or> sev = WARN \<or> sev = INFO"
  shows "case Output e l w stk (prefix_of e sev) d of
           Inl x \<Rightarrow> 100 \<le> val e
         | Inr (err, l', w') \<Rightarrow>
             \<exists>fb. map_sum id Bytes
                    (format_record (no_colors e) l (clock e (ticks w))
                       (lib_frame e ''Output'' 205 # stk) (prefix_of (no_colors e) sev) d) = Inr fb \<and>
               (case write_err e f fb of
                  Some x \<Rightarrow> err = Some x \<and>
                    w' = w\<lparr>ticks := Suc (ticks w), writes := writes w @ [(f, fb)]\<rparr>
                | None \<Rightarrow>
                    \<exists>pb. map_sum id Bytes
                           (format_record e l (clock e (ticks w))
                              (lib_frame e ''Output'' 205 # stk) (prefix_of e sev) d) = Inr pb \<and>
                      (color l \<or> fb = pb) \<and>
                      err = write_err e (out l) pb \<and>
                      w' = w\<lparr>ticks := Suc (Suc (ticks w)),
                             writes := writes w @ [(f, fb), (out l, pb)]\<rparr>)"
proof (cases "Output e l w stk (prefix_of e sev) d")
  case (Inl x)
  then show ?thesis using Output_Inl_val [OF Inl] by simp
next
  case (Inr r)
  obtain err l' w' where r: "r = (err, l', w')" by (cases r)
  have O: "Output e l w stk (prefix_of e sev) d = Inr (err, l', w')" using Inr r by simp
  obtain fb where fb: "record_bytes e (l\<lparr>color := False\<rparr>) (clock e (ticks w))
                    (lib_frame e ''Output'' 201 # stk) (prefix_of e sev) d = Inr fb"
    and rest: "case write_err e f fb of
                  Some x \<Rightarrow> err = Some x \<and> l' = l \<and>
                    w' = w\<lparr>ticks := Suc (ticks w), writes := writes w @ [(f, fb)]\<rparr>
                | None \<Rightarrow>
                    \<exists>pb b. record_bytes e l (clock e (Suc (ticks w)))
                             (lib_frame e ''Output'' 205 # stk) (prefix_of e sev) d = Inr pb \<and>
                      err = write_err e (out l) pb \<and> l' = l\<lparr>buf := b\<rparr> \<and>
                      w' = w\<lparr>ticks := Suc (Suc (ticks w)),
                             writes := writes w @ [(f, fb), (out l, pb)]\<rparr>"
    using Output_file_Inr [OF assms(1,2) O] by blast
  have dp: "1 \<le> depth (l\<lparr>color := False\<rparr>) \<or> sev = WARN \<or> sev = INFO"
    using assms(4) by simp
  have fb': "record_bytes e (l\<lparr>color := False\<rparr>) (clock e (ticks w))
      (lib_frame e ''Output'' 205 # stk) (prefix_of e sev) d = Inr fb"
    using fb record_bytes_same_frame [OF dp, of e "clock e (ticks w)" "lib_frame e ''Output'' 201"
        stk d "lib_frame e ''Output'' 205"]
    by simp
  then have F: "map_sum id Bytes
                    (format_record (no_colors e) l (clock e (ticks w))
                       (lib_frame e ''Output'' 205 # stk) (prefix_of (no_colors e) sev) d) = Inr fb"
    by (simp add: map_sum_format_record record_bytes_no_colors)
  show ?thesis
  proof (cases "write_err e f fb")
    case (Some x)
    then show ?thesis using rest by (simp add: O F)
  next
    case None
    obtain pb where pb: "record_bytes e l (clock e (Suc (ticks w)))
                             (lib_frame e ''Output'' 205 # stk) (prefix_of e sev) d = Inr pb"
      and res: "err = write_err e (out l) pb"
        "w' = w\<lparr>ticks := Suc (Suc (ticks w)), writes := writes w @ [(f, fb), (out l, pb)]\<rparr>"
      using rest None by auto
    have pb': "record_bytes e l (clock e (ticks w))
        (lib_frame e ''Output'' 205 # stk) (prefix_of e sev) d = Inr pb"
      using pb assms(3) by simp
    then have P: "map_sum id Bytes
                           (format_record e l (clock e (ticks w))
                              (lib_frame e ''Output'' 205 # stk) (prefix_of e sev) d) = Inr pb"
      by (simp add: map_sum_format_record)
    have agree: "color l \<or> fb = pb"
    proof (cases "color l")
      case True
      then show ?thesis by simp
    next
      case False
      then have "l\<lparr>color := False\<rparr> = l" by simp
      then show ?thesis using fb' pb' by simp
    qed
    show ?thesis using agree res by (simp add: O F P None)
  qed
qed

text \<open>An ERROR emission at depth 2 under a clock that stands still.\<close>

theorem Output_passes_agree_witness:
  "logFile (Depth logger_file 2) = Some 2 \<and> \<not> quiet (Depth logger_file 2) \<and>
   clock (env0\<lparr>clock := (\<lambda>n. clock env0 0)\<rparr>) (Suc (ticks world0))
     = clock (env0\<lparr>clock := (\<lambda>n. clock env0 0)\<rparr>) (ticks world0) \<and>
   1 \<le> depth (Depth logger_file 2) \<and>
   (\<exists>fb pb err l'.
      Output (env0\<lparr>clock := (\<lambda>n. clock env0 0)\<rparr>) (Depth logger_file 2) world0 stack0
          (prefix_of (env0\<lparr>clock := (\<lambda>n. clock env0 0)\<rparr>) ERROR) ''x'' =
        Inr (err, l',
             world0\<lparr>ticks := Suc (Suc (ticks world0)),
               writes := writes world0 @ [(2, fb), (out (Depth logger_file 2), pb)]\<rparr>) \<and>
      map_sum id Bytes (format_record (env0\<lparr>clock := (\<lambda>n. clock env0 0)\<rparr>) (Depth logger_file 2)
        (clock (env0\<lparr>clock := (\<lambda>n. clock env0 0)\<rparr>) (ticks world0))
        (lib_frame (env0\<lparr>clock := (\<lambda>n. clock env0 0)\<rparr>) ''Output'' 205 # stack0)
        (prefix_of (env0\<lparr>clock := (\<lambda>n. clock env0 0)\<rparr>) ERROR) ''x'') = Inr pb \<and>
      map_sum id Bytes (format_record (no_colors (env0\<lparr>clock := (\<lambda>n. clock env0 0)\<rparr>)) (Depth logger_file 2)
        (clock (env0\<lparr>clock := (\<lambda>n. clock env0 0)\<rparr>) (ticks world0))
        (lib_frame (env0\<lparr>clock := (\<lambda>n. clock env0 0)\<rparr>) ''Output'' 205 # stack0)
        (prefix_of (no_colors (env0\<lparr>clock := (\<lambda>n. clock env0 0)\<rparr>)) ERROR) ''x'') = Inr fb)"
proof -
  define e where "e = env0\<lparr>clock := (\<lambda>n. clock env0 0)\<rparr>"
  have h: "logFile (Depth logger_file 2) = Some 2" "\<not> quiet (Depth logger_file 2)"
    "clock e (Suc (ticks world0)) = clock e (ticks world0)"
    by (simp_all add: e_def logger_file_def New_def Depth_def)
  have h4: "1 \<le> depth (Depth logger_file 2)"
    by (simp add: Depth_def)
  then have h4': "1 \<le> depth (Depth logger_file 2) \<or> ERROR = WARN \<or> ERROR = INFO" ..
  have v: "\<not> 100 \<le> val e" by (simp add: e_def env0_def)
  have ok: "write_err e dst bs = None" for dst bs by (simp add: e_def env0_def)
  have "logFile (Depth logger_file 2) = Some 2 \<and> \<not> quiet (Depth logger_file 2) \<and>
   clock e (Suc (ticks world0)) = clock e (ticks world0) \<and>
   1 \<le> depth (Depth logger_file 2) \<and>
   (\<exists>fb pb err l'.
      Output e (Depth logger_file 2) world0 stack0 (prefix_of e ERROR) ''x'' =
        Inr (err, l',
             world0\<lparr>ticks := Suc (Suc (ticks world0)),
               writes := writes world0 @ [(2, fb), (out (Depth logger_file 2), pb)]\<rparr>) \<and>
      map_sum id Bytes (format_record e (Depth logger_file 2) (clock e (ticks world0))
        (lib_frame e ''Output'' 205 # stack0) (prefix_of e ERROR) ''x'') = Inr pb \<and>
      map_sum id Bytes (format_record (no_colors e) (Depth logger_file 2) (clock e (ticks world0))
        (lib_frame e ''Output'' 205 # stack0) (prefix_of (no_colors e) ERROR) ''x'') = Inr fb)"
    using h h4 v Output_passes_agree [where l = "Depth logger_file 2" and f = 2 and e = e
        and w = world0 and stk = stack0 and sev = ERROR and d = "''x''", OF h h4']
    by (auto split: sum.splits simp: ok)
  then show ?thesis unfolding e_def .
qed

text \<open>The claim as stated fails: the two passes do not share one instant or one frame. With
  colour off on both, an INFO record differs in its seconds when the clock has moved
  between the two readings (the first 12 bytes, prefix and year, are left out here);
  and at depth 0 an ERROR record names a line inside \<open>Output\<close>, that of each pass's own
  call (201 and 205), so the two records agree on their first 48 bytes and differ after.\<close>

theorem Output_passes_agree_counterexample:
  "map_sum id (\<lambda>(l, w). map (\<lambda>(dst, bs). (dst, drop 12 bs)) (writes w))
     (Info env0 (WithoutColor logger_file) world0 stack0 [''x'']) =
     Inr [(2, ''/05/06 07:08:00 x'' @ [CHR 0x0A]), (1, ''/05/06 07:08:01 x'' @ [CHR 0x0A])] \<and>
   map_sum id (\<lambda>(l, w). (map (\<lambda>(dst, bs). (dst, take 48 bs)) (writes w),
                           distinct (map snd (writes w))))
     (Error env0 logger_file_plain world0 stack0 [''x'']) =
     Inr ([(2, ''[ERROR] colored_logging.(*Logger).Output:log.go:''),
           (1, ''[ERROR] colored_logging.(*Logger).Output:log.go:'')], True)"
proof -
  have l: "logFile (WithoutColor logger_file) = Some 2" "\<not> quiet (WithoutColor logger_file)"
    "out (WithoutColor logger_file) = 1"
    by (simp_all add: logger_file_def New_def WithoutColor_def)
  have fb: "record_bytes env0 ((WithoutColor logger_file)\<lparr>color := False\<rparr>) (clock env0 (ticks world0))
      (lib_frame env0 ''Output'' 201 # lib_frame env0 ''Info'' 353 # stack0) (InfoPrefix env0)
      (Sprintln [''x'']) = Inr (''[INFO]  000'' @ [CHR 0x18] @ ''/05/06 07:08:00 x'' @ [CHR 0x0A])"
    by code_simp
  have pb: "record_bytes env0 (WithoutColor logger_file) (clock env0 (Suc (ticks world0)))
      (lib_frame env0 ''Output'' 205 # lib_frame env0 ''Info'' 353 # stack0) (InfoPrefix env0)
      (Sprintln [''x'']) = Inr (''[INFO]  000'' @ [CHR 0x18] @ ''/05/06 07:08:01 x'' @ [CHR 0x0A])"
    by code_simp
  have ok: "write_err env0 2 bs = None" for bs
    by (simp add: env0_def)
  obtain b where "Output env0 (WithoutColor logger_file) world0 (lib_frame env0 ''Info'' 353 # stack0)
       (InfoPrefix env0) (Sprintln [''x'']) =
     Inr (write_err env0 (out (WithoutColor logger_file))
            (''[INFO]  000'' @ [CHR 0x18] @ ''/05/06 07:08:01 x'' @ [CHR 0x0A]),
          (WithoutColor logger_file)\<lparr>buf := b\<rparr>,
          world0\<lparr>ticks := Suc (Suc (ticks world0)),
            writes := writes world0 @
              [(2, ''[INFO]  000'' @ [CHR 0x18] @ ''/05/06 07:08:00 x'' @ [CHR 0x0A]),
               (out (WithoutColor logger_file),
                ''[INFO]  000'' @ [CHR 0x18] @ ''/05/06 07:08:01 x'' @ [CHR 0x0A])]\<rparr>)"
    using Output_file_ok [OF l(1,2) fb ok pb] by blast
  then have 1: "map_sum id (\<lambda>(l, w). map (\<lambda>(dst, bs). (dst, drop 12 bs)) (writes w))
     (Info env0 (WithoutColor logger_file) world0 stack0 [''x'']) =
     Inr [(2, ''/05/06 07:08:00 x'' @ [CHR 0x0A]), (1, ''/05/06 07:08:01 x'' @ [CHR 0x0A])]"
    by (simp add: Info_def emit_def pbind_Inr world0_def l(3))
  have m: "logFile logger_file_plain = Some 2" "\<not> quiet logger_file_plain"
    "out logger_file_plain = 1"
    by (simp_all add: logger_file_plain_def New_def WithoutTimestamp_def)
  have fb': "record_bytes env0 (logger_file_plain\<lparr>color := False\<rparr>) (clock env0 (ticks world0))
      (lib_frame env0 ''Output'' 201 # lib_frame env0 ''Error'' 333 # stack0) (ErrorPrefix env0)
      (Sprintln [''x'']) = Inr (''[ERROR] colored_logging.(*Logger).Output:log.go:0'' @ [CHR 0xF9]
                               @ '' x'' @ [CHR 0x0A])"
    by code_simp
  have pb': "record_bytes env0 logger_file_plain (clock env0 (Suc (ticks world0)))
      (lib_frame env0 ''Output'' 205 # lib_frame env0 ''Error'' 333 # stack0) (ErrorPrefix env0)
      (Sprintln [''x'']) = Inr (''[ERROR] colored_logging.(*Logger).Output:log.go:0'' @ [CHR 0xFD]
                               @ '' x'' @ [CHR 0x0A])"
    by code_simp
  obtain b' where "Output env0 logger_file_plain world0 (lib_frame env0 ''Error'' 333 # stack0)
       (ErrorPrefix env0) (Sprintln [''x'']) =
     Inr (write_err env0 (out logger_file_plain)
            (''[ERROR] colored_logging.(*Logger).Output:log.go:0'' @ [CHR 0xFD] @ '' x'' @ [CHR 0x0A]),
          logger_file_plain\<lparr>buf := b'\<rparr>,
          world0\<lparr>ticks := Suc (Suc (ticks world0)),
            writes := writes world0 @
              [(2, ''[ERROR] colored_logging.(*Logger).Output:log.go:0'' @ [CHR 0xF9] @ '' x'' @ [CHR 0x0A]),
               (out logger_file_plain,
                ''[ERROR] colored_logging.(*Logger).Output:log.go:0'' @ [CHR 0xFD] @ '' x'' @ [CHR 0x0A])]\<rparr>)"
    using Output_file_ok [OF m(1,2) fb' ok pb'] by blast
  then have 2: "map_sum id (\<lambda>(l, w). (map (\<lambda>(dst, bs). (dst, take 48 bs)) (writes w),
                           distinct (map snd (writes w))))
     (Error env0 logger_file_plain world0 stack0 [''x'']) =
     Inr ([(2, ''[ERROR] colored_logging.(*Logger).Output:log.go:''),
           (1, ''[ERROR] colored_logging.(*Logger).Output:log.go:'')], True)"
    by (simp add: Error_def emit_def pbind_Inr world0_def m(3))
  show ?thesis using 1 2 by blast
qed

lemma record_bytes_shape:
  assumes "record_bytes e l now stk p d = Inr s" and "\<not> Callstack p"
  shows "\<exists>mid. s = prefix_bytes l p @ mid @ message_bytes d"
proof -
  obtain t where t: "timestamp_bytes e l now = Inr t"
    using assms(1) by (cases "timestamp_bytes e l now") (simp_all add: record_bytes_def pbind_def)
  obtain c where c: "location_bytes e l stk p = Inr c"
    using assms(1) t
    by (cases "location_bytes e l stk p") (simp_all add: record_bytes_def pbind_def)
  have "s = prefix_bytes l p @ (t @ c) @ message_bytes d"
    using assms t c by (simp add: record_bytes_def callstack_bytes_def pbind_Inr)
  then show ?thesis ..
qed

lemma Sprintln_3: "Sprintln [a, b, c] = a @ '' '' @ b @ '' '' @ c @ [CHR 0x0A]"
  by (simp add: Sprintln_def)

text \<open>Claim C9, amended. When the file cannot be opened, \<open>WithLogFile\<close> calls \<open>Error\<close> and, in
  every run that does not panic, returns the same logger, its configuration and its file
  destination as they were. A quiet logger writes nothing. A logger that is not quiet and
  has no file destination makes one write to the primary destination: an ERROR record
  that ends in the message, the path and the error text. A logger that is not quiet and
  had a file attached writes that record without colour to the file first, and the record
  to the primary destination only when the write to the file succeeded. A run panics only
  on a logger that is not quiet, inside \<open>AppendInt\<close>, and only when \<open>val\<close> is 100 or more.\<close>

theorem WithLogFile_open_fails:
  assumes "open_file e path = Inl err"
  shows "case WithLogFile e l w stk path of
           Inl x \<Rightarrow> 100 \<le> val e \<and> \<not> quiet l
         | Inr (l', w') \<Rightarrow>
             (\<exists>b. l' = l\<lparr>buf := b\<rparr>) \<and>
             (if quiet l then l' = l \<and> w' = w
              else case logFile l of
                None \<Rightarrow>
                  \<exists>mid. w' = w\<lparr>ticks := Suc (ticks w),
                    writes := writes w @
                      [(out l, prefix_bytes l (ErrorPrefix e) @ mid @ ''could not open log file ''
                               @ path @ '' '' @ err @ [CHR 0x0A])]\<rparr>
              | Some f \<Rightarrow>
                  \<exists>mid.
                    (case write_err e f (''[ERROR] '' @ mid @ ''could not open log file ''
                                          @ path @ '' '' @ err @ [CHR 0x0A]) of
                       Some x \<Rightarrow>
                         w' = w\<lparr>ticks := Suc (ticks w),
                           writes := writes w @
                             [(f, ''[ERROR] '' @ mid @ ''could not open log file ''
                                  @ path @ '' '' @ err @ [CHR 0x0A])]\<rparr>
                     | None \<Rightarrow>
                         \<exists>mid'. w' = w\<lparr>ticks := Suc (Suc (ticks w)),
                           writes := writes w @
                             [(f, ''[ERROR] '' @ mid @ ''could not open log file ''
                                  @ path @ '' '' @ err @ [CHR 0x0A]),
                              (out l, prefix_bytes l (ErrorPrefix e) @ mid'
                                  @ ''could not open log file '' @ path @ '' '' @ err
                                  @ [CHR 0x0A])]\<rparr>))"
proof -
  define D where "D = Sprintln [''could not open log file'', path, err]"
  define M where "M = ''could not open log file '' @ path @ '' '' @ err @ [CHR 0x0A]"
  define s1 where "s1 = lib_frame e ''Error'' 333 # lib_frame e ''WithLogFile'' 124 # stk"
  have W: "WithLogFile e l w stk path =
             pbind (Output e l w s1 (ErrorPrefix e) D) (\<lambda>(err, l, w). Inr (l, w))"
    using assms by (simp add: WithLogFile_def Error_def emit_def D_def s1_def)
  have m: "message_bytes D = M"
    unfolding D_def M_def message_bytes_Sprintln by (simp add: Sprintln_def)
  have nc: "\<not> Callstack (ErrorPrefix e)" by (simp add: ErrorPrefix_def)
  have shape: "\<exists>mid. s = prefix_bytes l0 (ErrorPrefix e) @ mid @ M"
    if "record_bytes e l0 now stk0 (ErrorPrefix e) D = Inr s" for l0 now stk0 s
    using record_bytes_shape [OF that nc] m by simp
  have plain: "prefix_bytes (l\<lparr>color := False\<rparr>) (ErrorPrefix e) = ''[ERROR] ''"
    by (simp add: prefix_bytes_def ErrorPrefix_def plainError_def)
  have goal: "case WithLogFile e l w stk path of
           Inl x \<Rightarrow> 100 \<le> val e \<and> \<not> quiet l
         | Inr (l', w') \<Rightarrow>
             (\<exists>b. l' = l\<lparr>buf := b\<rparr>) \<and>
             (if quiet l then l' = l \<and> w' = w
              else case logFile l of
                None \<Rightarrow>
                  \<exists>mid. w' = w\<lparr>ticks := Suc (ticks w),
                    writes := writes w @ [(out l, prefix_bytes l (ErrorPrefix e) @ mid @ M)]\<rparr>
              | Some f \<Rightarrow>
                  \<exists>mid.
                    (case write_err e f (''[ERROR] '' @ mid @ M) of
                       Some x \<Rightarrow>
                         w' = w\<lparr>ticks := Suc (ticks w),
                           writes := writes w @ [(f, ''[ERROR] '' @ mid @ M)]\<rparr>
                     | None \<Rightarrow>
                         \<exists>mid'. w' = w\<lparr>ticks := Suc (Suc (ticks w)),
                           writes := writes w @
                             [(f, ''[ERROR] '' @ mid @ M),
                              (out l, prefix_bytes l (ErrorPrefix e) @ mid' @ M)]\<rparr>))"
  proof (cases "Output e l w s1 (ErrorPrefix e) D")
    case (Inl x)
    have "\<not> quiet l" using Inl Output_quiet [of l e w s1 "ErrorPrefix e" D] by auto
    then show ?thesis using Output_Inl_val [OF Inl] by (simp add: W Inl pbind_Inl)
  next
    case (Inr r)
    obtain er l' w' where r: "r = (er, l', w')" by (cases r)
    have O: "Output e l w s1 (ErrorPrefix e) D = Inr (er, l', w')" using Inr r by simp
    have W': "WithLogFile e l w stk path = Inr (l', w')" by (simp add: W O pbind_Inr)
    show ?thesis
    proof (cases "quiet l")
      case True
      have "l' = l" "w' = w" using O Output_quiet [OF True, of e w s1 "ErrorPrefix e" D] by simp_all
      moreover have "l = l\<lparr>buf := buf l\<rparr>" by simp
      ultimately have "\<exists>b. l' = l\<lparr>buf := b\<rparr>" by blast
      then show ?thesis using True \<open>l' = l\<close> \<open>w' = w\<close> by (simp add: W')
    next
      case q: False
      note C = Output_cases [OF q, of e w s1 "ErrorPrefix e" D, unfolded O, simplified]
      have b: "\<exists>b. l' = l\<lparr>buf := b\<rparr>" using C by blast
      show ?thesis
      proof (cases "logFile l")
        case None
        obtain pb where pb: "record_bytes e l (clock e (ticks w)) (lib_frame e ''Output'' 205 # s1)
            (ErrorPrefix e) D = Inr pb"
          and w': "w' = w\<lparr>ticks := Suc (ticks w), writes := writes w @ [(out l, pb)]\<rparr>"
          using C None by auto
        obtain mid where "pb = prefix_bytes l (ErrorPrefix e) @ mid @ M"
          using shape [OF pb] by blast
        then have "\<exists>mid. w' = w\<lparr>ticks := Suc (ticks w),
                    writes := writes w @ [(out l, prefix_bytes l (ErrorPrefix e) @ mid @ M)]\<rparr>"
          using w' by blast
        then show ?thesis using b q None by (simp add: W')
      next
        case (Some f)
        obtain fb where fb: "record_bytes e (l\<lparr>color := False\<rparr>) (clock e (ticks w))
            (lib_frame e ''Output'' 201 # s1) (ErrorPrefix e) D = Inr fb"
          and rest: "case write_err e f fb of
                       Some x \<Rightarrow> er = Some x \<and>
                         w' = w\<lparr>ticks := Suc (ticks w), writes := writes w @ [(f, fb)]\<rparr>
                     | None \<Rightarrow>
                         \<exists>pb. record_bytes e l (clock e (Suc (ticks w)))
                                (lib_frame e ''Output'' 205 # s1) (ErrorPrefix e) D = Inr pb \<and>
                           er = write_err e (out l) pb \<and>
                           w' = w\<lparr>ticks := Suc (Suc (ticks w)),
                                  writes := writes w @ [(f, fb), (out l, pb)]\<rparr>"
          using C Some by auto
        obtain mid where mid: "fb = ''[ERROR] '' @ mid @ M"
          using shape [OF fb] plain by auto
        have "case write_err e f (''[ERROR] '' @ mid @ M) of
                       Some x \<Rightarrow>
                         w' = w\<lparr>ticks := Suc (ticks w),
                           writes := writes w @ [(f, ''[ERROR] '' @ mid @ M)]\<rparr>
                     | None \<Rightarrow>
                         \<exists>mid'. w' = w\<lparr>ticks := Suc (Suc (ticks w)),
                           writes := writes w @
                             [(f, ''[ERROR] '' @ mid @ M),
                              (out l, prefix_bytes l (ErrorPrefix e) @ mid' @ M)]\<rparr>"
        proof (cases "write_err e f fb")
          case bad: (Some x)
          then show ?thesis using rest mid by simp
        next
          case ok: None
          obtain pb where pb: "record_bytes e l (clock e (Suc (ticks w)))
                                (lib_frame e ''Output'' 205 # s1) (ErrorPrefix e) D = Inr pb"
            and w': "w' = w\<lparr>ticks := Suc (Suc (ticks w)),
                                  writes := writes w @ [(f, fb), (out l, pb)]\<rparr>"
            using rest ok by auto
          obtain mid' where "pb = prefix_bytes l (ErrorPrefix e) @ mid' @ M"
            using shape [OF pb] by blast
          then have "\<exists>mid'. w' = w\<lparr>ticks := Suc (Suc (ticks w)),
                           writes := writes w @
                             [(f, ''[ERROR] '' @ mid @ M),
                              (out l, prefix_bytes l (ErrorPrefix e) @ mid' @ M)]\<rparr>"
            using w' mid by blast
          then show ?thesis using ok mid by simp
        qed
        then have "\<exists>mid. (case write_err e f (''[ERROR] '' @ mid @ M) of
                       Some x \<Rightarrow>
                         w' = w\<lparr>ticks := Suc (ticks w),
                           writes := writes w @ [(f, ''[ERROR] '' @ mid @ M)]\<rparr>
                     | None \<Rightarrow>
                         \<exists>mid'. w' = w\<lparr>ticks := Suc (Suc (ticks w)),
                           writes := writes w @
                             [(f, ''[ERROR] '' @ mid @ M),
                              (out l, prefix_bytes l (ErrorPrefix e) @ mid' @ M)]\<rparr>)" ..
        then show ?thesis using b q Some by (simp add: W')
      qed
    qed
  qed
  show ?thesis using goal unfolding M_def .
qed

text \<open>A logger as \<open>New\<close> makes it, and a path that does not open.\<close>

theorem WithLogFile_open_fails_witness:
  "open_file env0 ''/var/log/app.log'' = Inl ''no such file or directory'' \<and>
   \<not> quiet logger_new \<and> logFile logger_new = None \<and>
   (\<exists>b mid. WithLogFile env0 logger_new world0 stack0 ''/var/log/app.log'' =
      Inr (logger_new\<lparr>buf := b\<rparr>,
           world0\<lparr>ticks := Suc (ticks world0),
             writes := writes world0 @
               [(out logger_new, prefix_bytes logger_new (ErrorPrefix env0) @ mid
                   @ ''could not open log file '' @ ''/var/log/app.log'' @ '' ''
                   @ ''no such file or directory'' @ [CHR 0x0A])]\<rparr>))"
proof -
  have h: "open_file env0 ''/var/log/app.log'' = Inl ''no such file or directory''"
    by (simp add: env0_def)
  have v: "\<not> 100 \<le> val env0" by (simp add: env0_def)
  have l: "\<not> quiet logger_new" "logFile logger_new = None"
    by (simp_all add: logger_new_def New_def)
  show ?thesis
    using h v l WithLogFile_open_fails [where e = env0 and path = "''/var/log/app.log''"
        and err = "''no such file or directory''" and l = logger_new and w = world0
        and stk = stack0, OF h]
    by (auto split: sum.splits)
qed

text \<open>The claim as stated fails twice: a quiet logger reports nothing on the primary
  destination, and a logger that had a file attached keeps it (the ERROR record goes to
  both destinations).\<close>

theorem WithLogFile_open_fails_counterexample:
  "WithLogFile env0 (Quiet logger_new) world0 stack0 ''/var/log/app.log''
     = Inr (Quiet logger_new, world0) \<and>
   map_sum id (\<lambda>(l, w). (logFile l, map fst (writes w)))
     (WithLogFile env0 logger_file_plain world0 stack0 ''/var/log/app.log'') = Inr (Some 2, [2, 1])"
proof -
  have o: "open_file env0 ''/var/log/app.log'' = Inl ''no such file or directory''"
    and v: "val env0 < 100"
    by (simp_all add: env0_def)
  have "quiet (Quiet logger_new)" by (simp add: Quiet_def)
  then have 1: "WithLogFile env0 (Quiet logger_new) world0 stack0 ''/var/log/app.log''
     = Inr (Quiet logger_new, world0)"
    using o by (simp add: WithLogFile_def Error_def emit_quiet)
  have l: "logFile logger_file_plain = Some 2" "\<not> quiet logger_file_plain"
    "out logger_file_plain = 1"
    by (simp_all add: logger_file_plain_def New_def WithoutTimestamp_def)
  have ok: "write_err env0 2 bs = None" for bs
    by (simp add: env0_def)
  obtain fb where fb: "record_bytes env0 (logger_file_plain\<lparr>color := False\<rparr>) (clock env0 (ticks world0))
      (lib_frame env0 ''Output'' 201 # lib_frame env0 ''Error'' 333
         # lib_frame env0 ''WithLogFile'' 124 # stack0) (ErrorPrefix env0)
      (Sprintln [''could not open log file'', ''/var/log/app.log'', ''no such file or directory'']) = Inr fb"
    using record_bytes_returns [OF v] by blast
  obtain pb where pb: "record_bytes env0 logger_file_plain (clock env0 (Suc (ticks world0)))
      (lib_frame env0 ''Output'' 205 # lib_frame env0 ''Error'' 333
         # lib_frame env0 ''WithLogFile'' 124 # stack0) (ErrorPrefix env0)
      (Sprintln [''could not open log file'', ''/var/log/app.log'', ''no such file or directory'']) = Inr pb"
    using record_bytes_returns [OF v] by blast
  obtain b where "Output env0 logger_file_plain world0
       (lib_frame env0 ''Error'' 333 # lib_frame env0 ''WithLogFile'' 124 # stack0) (ErrorPrefix env0)
       (Sprintln [''could not open log file'', ''/var/log/app.log'', ''no such file or directory'']) =
     Inr (write_err env0 (out logger_file_plain) pb, logger_file_plain\<lparr>buf := b\<rparr>,
          world0\<lparr>ticks := Suc (Suc (ticks world0)),
            writes := writes world0 @ [(2, fb), (out logger_file_plain, pb)]\<rparr>)"
    using Output_file_ok [OF l(1,2) fb ok pb] by blast
  then have 2: "map_sum id (\<lambda>(l, w). (logFile l, map fst (writes w)))
     (WithLogFile env0 logger_file_plain world0 stack0 ''/var/log/app.log'') = Inr (Some 2, [2, 1])"
    using o l by (simp add: WithLogFile_def Error_def emit_def pbind_Inr world0_def)
  show ?thesis using 1 2 by blast
qed

text \<open>Beyond the claims. At the default depth 0 the caller that \<open>output\<close> resolves for its
  location is the frame of \<open>Output\<close> itself, at the line of its call of \<open>output\<close>; the
  frame of the code that called the severity method \<open>m\<close> is the one resolved at depth 2.\<close>

theorem getOccurrence_at_depth:
  "getOccurrence e (Depth l 0)
     (lib_frame e ''output'' 249 # lib_frame e ''Output'' n # m # u # stk) 0
     = (Base (libfile e), ''colored_logging.(*Logger).Output'', n, True) \<and>
   getOccurrence e (Depth l 2)
     (lib_frame e ''output'' 249 # lib_frame e ''Output'' n # m # u # stk) 0
     = (Base (fr_file u), fr_fn u, fr_line u, True)"
  by (simp add: getOccurrence_def runtime_Caller_def Depth_def lib_frame_def)

text \<open>Beyond the claims. For a value from 0 to 9 and a width of at most 1 the loop of
  \<open>AppendInt\<close> is not entered, and the one byte appended is the decimal digit, whatever
  \<open>val\<close> is.\<close>

theorem AppendInt_one_digit:
  assumes "0 \<le> v" and "v < 10" and "w \<le> 1"
  shows "AppendInt_repr e v w = Inr (padded_decimal (nat v) (nat w))"
proof -
  have 1: "AppendInt_loop e (replicate 8 (CHR 0x00)) 7 v w = Inr (replicate 8 (CHR 0x00), 7, v)"
    using assms(2,3) by (subst AppendInt_loop.simps) simp
  have 2: "drop 7 ((replicate 8 (CHR 0x00))[7 := y]) = [y]" for y
    by (simp add: numeral_eq_Suc)
  have lhs: "AppendInt_repr e v w = Inr [byte (48 + v)]"
    by (simp add: AppendInt_repr_def 1 2)
  have "48 + v = int (48 + nat v)" using assms(1) by simp
  then have b: "byte (48 + v) = char_of (48 + nat v)"
    unfolding byte_def by (simp only: char_of_nat)
  have "nat v < 10" using assms(1,2) by simp
  then have d: "decimal (nat v) = [char_of (48 + nat v)]"
    by (subst decimal.simps) simp
  have "padded_decimal (nat v) (nat w) = [char_of (48 + nat v)]"
    using assms(3) by (simp add: padded_decimal_def d)
  then show ?thesis
    by (simp only: lhs b)
qed

text \<open>The digit 7, with 100 for \<open>val\<close>.\<close>

theorem AppendInt_one_digit_witness:
  "(0::int) \<le> 7 \<and> (7::int) < 10 \<and> (0::int) \<le> 1 \<and> AppendInt_repr env_val100 7 0 = Inr ''7''"
proof -
  have "padded_decimal (nat 7) (nat 0) = ''7''" by code_simp
  then show ?thesis
    using AppendInt_one_digit [of 7 0 env_val100] by simp
qed

text \<open>Beyond the claims. For a width of at most 8, \<open>AppendInt\<close> stays inside its scratch array
  exactly when \<open>val\<close> is below 100 or the loop is not entered (a value below 10 and a width
  of at most 1): with line 26 as it is, \<open>remaining\<close> is \<open>val / 10\<close> after the first iteration,
  so whether the loop ends before the index leaves the array is decided by \<open>val\<close> and not
  by the number of digits of the value.\<close>

theorem AppendInt_in_bounds:
  assumes "w \<le> 8"
  shows "(\<exists>digits. AppendInt_repr e v w = Inr digits) \<longleftrightarrow> (val e < 100 \<or> (v < 10 \<and> w \<le> 1))"
proof (cases "val e < 100")
  case True
  then show ?thesis using AppendInt_repr_returns [OF True assms, of v] by simp
next
  case big: False
  show ?thesis
  proof (cases "v < 10 \<and> w \<le> 1")
    case True
    then have "AppendInt_loop e (replicate 8 (CHR 0x00)) 7 v w = Inr (replicate 8 (CHR 0x00), 7, v)"
      by (subst AppendInt_loop.simps) simp
    then show ?thesis using True by (simp add: AppendInt_repr_def)
  next
    case False
    then have "10 \<le> v \<or> 1 < w" by auto
    moreover have "100 \<le> val e" using big by simp
    ultimately have "AppendInt e nil_Buffer v w = Inl IndexOutOfRange"
      by (rule AppendInt_out_of_range [rotated])
    then have "AppendInt_repr e v w = Inl IndexOutOfRange"
      by (simp add: AppendInt_def split: sum.splits)
    then show ?thesis using big False by simp
  qed
qed

text \<open>Eight digits at width 8 with 0 for \<open>val\<close>; the number 10 with 100 for \<open>val\<close>.\<close>

theorem AppendInt_in_bounds_witness:
  "(8::int) \<le> 8 \<and> (\<exists>digits. AppendInt_repr env0 12345678 8 = Inr digits) \<and>
   \<not> (\<exists>digits. AppendInt_repr env_val100 10 0 = Inr digits)"
proof -
  have "val env0 < 100" "\<not> val env_val100 < 100" by (simp_all add: env0_def env_val100_def)
  then show ?thesis
    using AppendInt_in_bounds [of 8 env0 12345678] AppendInt_in_bounds [of 0 env_val100 10]
    by simp
qed

end
